theory Spec2Isabelle
  imports Main "HOL-Library.AList"
begin

section \<open>The over-the-air updater of \<open>ota.py\<close>\<close>

text \<open>
  A shallow embedding of \<open>ota.py\<close>: the three classes \<open>OTAFileMetadata\<close>,
  \<open>OTADatabase\<close> and \<open>OTAUpdater\<close> and the two module functions
  \<open>calculate_github_sha\<close> and \<open>valid_code\<close>.

  Python exceptions are values of the type \<open>error\<close>. A method that mutates its
  object or the device returns the new object and the new device state together with
  the exception it raised, if any: what was mutated before a \<open>raise\<close> stays mutated.
  What the program asks of the interpreter and of the network (free memory, the
  HTTP reply, SHA-1, base64, the compiler, the JSON codec, the names the runtime
  defines) is a field of the record \<open>env\<close>; nothing is assumed about these fields
  unless a theorem says so.
  Debug printing is not modelled.
\<close>

subsection \<open>Exceptions\<close>

datatype error =
    OTANoMemory
  | OTANewFileWillNotValidate
  | ValueError
  | MemoryError
  | KeyError
  | TypeError
  | OSError
  | AttributeError
  | RuntimeError
  | UnicodeError
  | SyntaxError
  | NameError

subsection \<open>The device: files, counters, clock\<close>

text \<open>
  One entry of \<open>versions.json\<close>, as \<open>to_json\<close> builds it. Both fields hold a
  Python value that is a string or \<open>None\<close>.
\<close>

record entry =
  e_latest :: "string option"
  e_current :: "string option"

type_synonym document = "(string \<times> entry) list"

text \<open>
  A file holds either text, or a JSON document that \<open>json.dump\<close> wrote.
  \<open>json.load\<close> gives back a document that \<open>json.dump\<close> wrote; on a text file
  it is the parser of the environment.
\<close>

datatype content = Text string | Json document

type_synonym filesystem = "string \<rightharpoonup> content"

text \<open>The reply of \<open>requests.get(url, headers).json()\<close>: an exception, or a
  dictionary, of which the program reads the keys \<open>sha\<close> and \<open>content\<close>.
  \<open>UnicodeError\<close> is a subclass of \<open>ValueError\<close>, so \<open>except ValueError\<close>
  catches both.\<close>

datatype response =
    Fails error
  | Reply "string option" "string option"

text \<open>
  \<open>compile E s\<close> is the exception that reading and compiling the text \<open>s\<close> raises,
  if any. \<open>defines_FileNotFoundError\<close> says whether the runtime knows the name
  \<open>FileNotFoundError\<close>: CPython does, MicroPython does not.
\<close>

record env =
  mem_free :: "nat \<Rightarrow> nat"
  http_get :: "nat \<Rightarrow> string \<Rightarrow> response"
  sha1 :: "string \<Rightarrow> string"
  a2b_base64 :: "string \<Rightarrow> string option"
  utf8_valid :: "string \<Rightarrow> bool"
  compile :: "string \<Rightarrow> error option"
  defines_FileNotFoundError :: bool
  json_load :: "string \<Rightarrow> document option"
  json_dump :: "document \<Rightarrow> string"

text \<open>
  \<open>mem_queries\<close> counts the calls of \<open>gc.mem_free()\<close> and \<open>requests\<close> the calls of
  \<open>requests.get\<close>: the \<open>n\<close>-th call reads \<open>mem_free env n\<close>, respectively
  \<open>http_get env n url\<close>. \<open>clock\<close> is \<open>utime.time()\<close>, in seconds; only \<open>sleep\<close>
  advances it. \<open>reset_called\<close> records \<open>machine.reset()\<close>.
\<close>

record world =
  fs :: filesystem
  mem_queries :: nat
  requests :: nat
  clock :: int
  reset_called :: bool

definition sleep :: "int \<Rightarrow> world \<Rightarrow> world" where
  "sleep n w = w\<lparr>clock := clock w + n\<rparr>"

definition bytes_of :: "env \<Rightarrow> content \<Rightarrow> string" where
  "bytes_of E c = (case c of Text s \<Rightarrow> s | Json d \<Rightarrow> json_dump E d)"

text \<open>\<open>os.rename(src, dst)\<close>: \<open>None\<close> stands for the \<open>OSError\<close> of a missing source.\<close>

definition rename :: "string \<Rightarrow> string \<Rightarrow> filesystem \<Rightarrow> filesystem option" where
  "rename src dst f =
     (case f src of
        None \<Rightarrow> None
      | Some c \<Rightarrow> Some ((f(src := None))(dst \<mapsto> c)))"

subsection \<open>\<open>calculate_github_sha\<close>\<close>

text \<open>The \<open>while True\<close> loop that reads the file in chunks of 1024 bytes.\<close>

function read_chunks :: "string \<Rightarrow> string \<Rightarrow> string" where
  "read_chunks rest data =
     (let chunk = take 1024 rest
      in if chunk = [] then data else read_chunks (drop 1024 rest) (data @ chunk))"
  by pat_completeness auto
termination
  by (relation "measure (\<lambda>(rest, data). length rest)") auto

declare read_chunks.simps [simp del]

text \<open>\<open>"%u" % n\<close>\<close>

definition digit :: "nat \<Rightarrow> char" where
  "digit d = ''0123456789'' ! d"

function decimal :: "nat \<Rightarrow> string" where
  "decimal n = (if n < 10 then [digit n] else decimal (n div 10) @ [digit (n mod 10)])"
  by pat_completeness auto
termination
  by (relation "measure (\<lambda>n. n)") auto

declare decimal.simps [simp del]

text \<open>\<open>''.join('{:02x}'.format(byte) for byte in s_binary)\<close>\<close>

definition hex_digit :: "nat \<Rightarrow> char" where
  "hex_digit d = ''0123456789abcdef'' ! d"

definition hex_byte :: "char \<Rightarrow> string" where
  "hex_byte b = [hex_digit (of_char b div 16), hex_digit (of_char b mod 16)]"

definition hexdigest :: "string \<Rightarrow> string" where
  "hexdigest s_binary = concat (map hex_byte s_binary)"

definition blob_header :: "nat \<Rightarrow> string" where
  "blob_header n = ''blob '' @ decimal n @ [CHR 0x00]"

definition calculate_github_sha :: "env \<Rightarrow> filesystem \<Rightarrow> string \<Rightarrow> string" where
  "calculate_github_sha E f filename =
     (case f filename of
        None \<Rightarrow> []
      | Some c \<Rightarrow>
          (let data = read_chunks (bytes_of E c) []
           in hexdigest (sha1 E (blob_header (length data) @ data))))"

subsection \<open>\<open>valid_code\<close>\<close>

text \<open>
  The \<open>except (SyntaxError, FileNotFoundError)\<close> clause is evaluated when the body
  of the \<open>try\<close> raises: on a runtime without the name \<open>FileNotFoundError\<close> that
  evaluation raises \<open>NameError\<close>, whatever the body raised. Where the name exists,
  a missing file and a \<open>SyntaxError\<close> give \<open>False\<close> and any other exception
  propagates.
\<close>

definition valid_code :: "env \<Rightarrow> filesystem \<Rightarrow> string \<Rightarrow> error + bool" where
  "valid_code E f file_path =
     (case f file_path of
        None \<Rightarrow> (if defines_FileNotFoundError E then Inr False else Inl NameError)
      | Some c \<Rightarrow>
          (case compile E (bytes_of E c) of
             None \<Rightarrow> Inr True
           | Some e \<Rightarrow>
               if \<not> defines_FileNotFoundError E then Inl NameError
               else if e = SyntaxError then Inr False
               else Inl e))"

subsection \<open>\<open>OTAFileMetadata\<close>\<close>

record OTAFileMetadata =
  filename :: string
  url :: string
  save_backups :: bool
  latest :: "string option"
  latest_file :: "string option"
  current :: "string option"

definition LATEST_FILE_PREFIX :: string where
  "LATEST_FILE_PREFIX = ''__latest__''"

definition ERROR_FILE_PREFIX :: string where
  "ERROR_FILE_PREFIX = ''__error__''"

definition BACKUP_FILE_PREFIX :: string where
  "BACKUP_FILE_PREFIX = ''__backup__''"

definition OTA_MINIMUM_MEMORY :: nat where
  "OTA_MINIMUM_MEMORY = 32000"

definition to_json :: "OTAFileMetadata \<Rightarrow> string \<times> entry" where
  "to_json m = (filename m, \<lparr>e_latest = latest m, e_current = current m\<rparr>)"

definition mem_check :: "env \<Rightarrow> world \<Rightarrow> error option \<times> world" where
  "mem_check E w =
     (let free_mem = mem_free E (mem_queries w);
          w' = w\<lparr>mem_queries := Suc (mem_queries w)\<rparr>
      in if free_mem < OTA_MINIMUM_MEMORY then (Some OTANoMemory, w') else (None, w'))"

definition new_version_available :: "OTAFileMetadata \<Rightarrow> bool" where
  "new_version_available m = (current m \<noteq> latest m)"

text \<open>
  The body of the \<open>if 'sha' in response\<close> branch: the new fingerprint is stored
  first; the content is decoded, staged and validated only when it differs from
  \<open>current\<close>. \<open>latest_file\<close> is assigned and the staged file is opened for writing,
  which creates or empties it, before \<open>str(file_content, 'utf-8')\<close> is evaluated:
  when that raises, the staged file is left empty.
\<close>

definition stage :: "env \<Rightarrow> string \<Rightarrow> string option \<Rightarrow> OTAFileMetadata \<Rightarrow> world
    \<Rightarrow> error option \<times> OTAFileMetadata \<times> world" where
  "stage E sha cont m w =
     (let m1 = m\<lparr>latest := Some sha\<rparr>
      in if new_version_available m1 then
           (case cont of
              None \<Rightarrow> (Some KeyError, m1, w)
            | Some b64 \<Rightarrow>
                (case a2b_base64 E b64 of
                   None \<Rightarrow> (Some ValueError, m1, w)
                 | Some file_content \<Rightarrow>
                     (let p = LATEST_FILE_PREFIX @ filename m1;
                          m2 = m1\<lparr>latest_file := Some p\<rparr>
                      in if \<not> utf8_valid E file_content then
                           (Some UnicodeError, m2, w\<lparr>fs := (fs w)(p \<mapsto> Text [])\<rparr>)
                         else
                           (let f2 = (fs w)(p \<mapsto> Text file_content)
                            in case valid_code E f2 p of
                                 Inl e \<Rightarrow> (Some e, m2, w\<lparr>fs := f2\<rparr>)
                               | Inr True \<Rightarrow> (None, m2, w\<lparr>fs := f2\<rparr>)
                               | Inr False \<Rightarrow>
                                   (let error_file = ERROR_FILE_PREFIX @ filename m2
                                    in case rename p error_file f2 of
                                         None \<Rightarrow> (Some OSError, m2, w\<lparr>fs := f2\<rparr>)
                                       | Some f3 \<Rightarrow>
                                           (Some OTANewFileWillNotValidate,
                                            m2\<lparr>latest_file := None\<rparr>,
                                            w\<lparr>fs := f3\<rparr>))))))
         else (None, m1, w))"

definition update_latest :: "env \<Rightarrow> OTAFileMetadata \<Rightarrow> world
    \<Rightarrow> error option \<times> OTAFileMetadata \<times> world" where
  "update_latest E m w =
     (case mem_check E w of
        (Some e, w1) \<Rightarrow> (Some e, m, w1)
      | (None, w1) \<Rightarrow>
          (let w2 = w1\<lparr>requests := Suc (requests w1)\<rparr>
           in case http_get E (requests w1) (url m) of
                Fails ValueError \<Rightarrow> (None, m, w2)
              | Fails UnicodeError \<Rightarrow> (None, m, w2)
              | Fails MemoryError \<Rightarrow> (Some OTANoMemory, m, w2)
              | Fails e \<Rightarrow> (Some e, m, w2)
              | Reply sha cont \<Rightarrow>
                  (case mem_check E w2 of
                     (Some e, w3) \<Rightarrow> (Some e, m, w3)
                   | (None, w3) \<Rightarrow>
                       (case sha of
                          None \<Rightarrow> (None, m, sleep 1 w3)
                        | Some s \<Rightarrow> stage E s cont m w3))))"

text \<open>\<open>os.rename(None, \<dots>)\<close> raises \<open>TypeError\<close>, after the backup was made.\<close>

definition set_current_to_latest :: "OTAFileMetadata \<Rightarrow> world
    \<Rightarrow> error option \<times> OTAFileMetadata \<times> world" where
  "set_current_to_latest m w =
     (case (if save_backups m \<and> filename m \<in> dom (fs w)
            then rename (filename m) (BACKUP_FILE_PREFIX @ filename m) (fs w)
            else Some (fs w)) of
        None \<Rightarrow> (Some OSError, m, w)
      | Some f1 \<Rightarrow>
          (case latest_file m of
             None \<Rightarrow> (Some TypeError, m, w\<lparr>fs := f1\<rparr>)
           | Some p \<Rightarrow>
               (case rename p (filename m) f1 of
                  None \<Rightarrow> (Some OSError, m, w\<lparr>fs := f1\<rparr>)
                | Some f2 \<Rightarrow> (None, m\<lparr>current := latest m\<rparr>, w\<lparr>fs := f2\<rparr>))))"


subsection \<open>\<open>OTADatabase\<close>\<close>

definition DB_FILE :: string where
  "DB_FILE = ''versions.json''"


text \<open>\<open>read\<close> returns \<open>None\<close> when the file cannot be opened; an error of
  \<open>json.load\<close> is not caught.\<close>

definition OTADatabase_read :: "env \<Rightarrow> world \<Rightarrow> error + document option" where
  "OTADatabase_read E w =
     (case fs w DB_FILE of
        None \<Rightarrow> Inr None
      | Some (Json d) \<Rightarrow> Inr (Some d)
      | Some (Text s) \<Rightarrow>
          (case json_load E s of None \<Rightarrow> Inl ValueError | Some d \<Rightarrow> Inr (Some d)))"

definition OTADatabase_write :: "document \<Rightarrow> world \<Rightarrow> world" where
  "OTADatabase_write d w = w\<lparr>fs := (fs w)(DB_FILE \<mapsto> Json d)\<rparr>"

definition entry_exists :: "env \<Rightarrow> world \<Rightarrow> string \<Rightarrow> error + bool" where
  "entry_exists E w name =
     (case OTADatabase_read E w of
        Inl e \<Rightarrow> Inl e
      | Inr None \<Rightarrow> Inr False
      | Inr (Some d) \<Rightarrow> Inr (d \<noteq> [] \<and> name \<in> fst ` set d))"

definition get_entry :: "env \<Rightarrow> world \<Rightarrow> string \<Rightarrow> error + entry option" where
  "get_entry E w name =
     (case OTADatabase_read E w of
        Inl e \<Rightarrow> Inl e
      | Inr None \<Rightarrow> Inr None
      | Inr (Some d) \<Rightarrow> Inr (map_of d name))"


definition OTADatabase_delete :: "env \<Rightarrow> string \<Rightarrow> world \<Rightarrow> error option \<times> world" where
  "OTADatabase_delete E name w =
     (case OTADatabase_read E w of
        Inl e \<Rightarrow> (Some e, w)
      | Inr data \<Rightarrow>
          (case entry_exists E w name of
             Inl e \<Rightarrow> (Some e, w)
           | Inr False \<Rightarrow> (None, w)
           | Inr True \<Rightarrow>
               (case data of
                  None \<Rightarrow> (Some TypeError, w)
                | Some d \<Rightarrow> (None, OTADatabase_write (AList.delete name d) w))))"

definition OTADatabase_update :: "env \<Rightarrow> string \<times> entry \<Rightarrow> world \<Rightarrow> error option \<times> world" where
  "OTADatabase_update E new_item w =
     (case OTADatabase_read E w of
        Inl e \<Rightarrow> (Some e, w)
      | Inr data \<Rightarrow>
          (case OTADatabase_delete E (fst new_item) w of
             (Some e, w1) \<Rightarrow> (Some e, w1)
           | (None, w1) \<Rightarrow>
               (case data of
                  None \<Rightarrow> (Some AttributeError, w1)
                | Some d \<Rightarrow>
                    (None, OTADatabase_write (AList.update (fst new_item) (snd new_item) d) w1))))"




subsection \<open>\<open>OTAUpdater\<close>\<close>

record OTAUpdater =
  files_obj :: "OTAFileMetadata list"
  update_interval_seconds :: "int option"
  last_update_time :: "int option"

text \<open>The \<open>for\<close> loop of \<open>fetch_updates\<close>: an exception ends it.\<close>

fun fetch_loop :: "env \<Rightarrow> OTAFileMetadata list \<Rightarrow> world
    \<Rightarrow> error option \<times> OTAFileMetadata list \<times> world" where
  "fetch_loop E [] w = (None, [], w)"
| "fetch_loop E (m # ms) w =
     (case update_latest E m w of
        (Some e, m1, w1) \<Rightarrow> (Some e, m1 # ms, w1)
      | (None, m1, w1) \<Rightarrow>
          (case fetch_loop E ms w1 of (r, ms1, w2) \<Rightarrow> (r, m1 # ms1, w2)))"

text \<open>The \<open>try\<close> is around the whole loop and catches
  \<open>OTANewFileWillNotValidate\<close> only.\<close>

definition fetch_updates :: "env \<Rightarrow> OTAFileMetadata list \<Rightarrow> world
    \<Rightarrow> error option \<times> OTAFileMetadata list \<times> world" where
  "fetch_updates E ms w =
     (case fetch_loop E ms w of
        (Some OTANewFileWillNotValidate, ms1, w1) \<Rightarrow> (None, ms1, w1)
      | r \<Rightarrow> r)"

text \<open>The \<open>for entry in self.files_obj\<close> loop of \<open>_check_for_updates\<close>, with
  \<open>files_updated_flag\<close> as an accumulator.\<close>

fun apply_loop :: "env \<Rightarrow> OTAFileMetadata list \<Rightarrow> world \<Rightarrow> bool
    \<Rightarrow> error option \<times> OTAFileMetadata list \<times> world \<times> bool" where
  "apply_loop E [] w flag = (None, [], w, flag)"
| "apply_loop E (m # ms) w flag =
     (if new_version_available m then
        (case set_current_to_latest m w of
           (Some e, m1, w1) \<Rightarrow> (Some e, m1 # ms, w1, flag)
         | (None, m1, w1) \<Rightarrow>
             (case OTADatabase_update E (to_json m1) w1 of
                (Some e, w2) \<Rightarrow> (Some e, m1 # ms, w2, flag)
              | (None, w2) \<Rightarrow>
                  (case apply_loop E ms w2 True of
                     (r, ms1, w3, fl) \<Rightarrow> (r, m1 # ms1, w3, fl))))
      else
        (case apply_loop E ms w flag of (r, ms1, w3, fl) \<Rightarrow> (r, m # ms1, w3, fl)))"

definition check_for_updates :: "env \<Rightarrow> OTAFileMetadata list \<Rightarrow> world
    \<Rightarrow> (error + bool) \<times> OTAFileMetadata list \<times> world" where
  "check_for_updates E ms w =
     (case fetch_updates E ms w of
        (Some e, ms1, w1) \<Rightarrow> (Inl e, ms1, w1)
      | (None, ms1, w1) \<Rightarrow>
          (case apply_loop E ms1 w1 False of
             (Some e, ms2, w2, fl) \<Rightarrow> (Inl e, ms2, w2)
           | (None, ms2, w2, fl) \<Rightarrow> (Inr fl, ms2, w2)))"

text \<open>
  The value a call returns is a Python \<open>bool\<close> or \<open>None\<close>: after
  \<open>machine.reset()\<close> the body of \<open>_check_and_apply_updates\<close> ends without a
  \<open>return\<close>.
\<close>

definition check_and_apply_updates :: "env \<Rightarrow> int \<Rightarrow> OTAUpdater \<Rightarrow> world
    \<Rightarrow> (error + bool option) \<times> OTAUpdater \<times> world" where
  "check_and_apply_updates E current_time u w =
     (case check_for_updates E (files_obj u) w of
        (Inl e, ms, w1) \<Rightarrow> (Inl e, u\<lparr>files_obj := ms\<rparr>, w1)
      | (Inr True, ms, w1) \<Rightarrow>
          (Inr None,
           u\<lparr>files_obj := ms, last_update_time := Some current_time\<rparr>,
           (sleep 1 w1)\<lparr>reset_called := True\<rparr>)
      | (Inr False, ms, w1) \<Rightarrow> (Inr (Some False), u\<lparr>files_obj := ms\<rparr>, w1))"

definition updated :: "env \<Rightarrow> bool \<Rightarrow> OTAUpdater \<Rightarrow> world
    \<Rightarrow> (error + bool option) \<times> OTAUpdater \<times> world" where
  "updated E force_update u w =
     (let current_time = clock w
      in if force_update then check_and_apply_updates E current_time u w
         else
           (case update_interval_seconds u of
              Some interval \<Rightarrow>
                (if last_update_time u = None
                    \<or> current_time - the (last_update_time u) \<ge> interval
                 then check_and_apply_updates E current_time u w
                 else (Inr (Some False), u, w))
            | None \<Rightarrow> check_and_apply_updates E current_time u w))"




subsection \<open>Concrete devices and environments\<close>

text \<open>
  An environment with plenty of memory, whose remote source reports the fingerprint
  \<open>H2\<close> and the content \<open>new\<close> for every file. Its stand-in for SHA-1 keeps the last
  two bytes, reversed; its compiler rejects the text \<open>bad\<close> with a \<open>SyntaxError\<close>, and
  its runtime defines \<open>FileNotFoundError\<close>.
\<close>

definition E0 :: env where
  "E0 = \<lparr>mem_free = (\<lambda>n. 50000),
         http_get = (\<lambda>n u. Reply (Some ''H2'') (Some ''new'')),
         sha1 = (\<lambda>s. take 2 (rev s)),
         a2b_base64 = Some,
         utf8_valid = (\<lambda>s. True),
         compile = (\<lambda>s. if s = ''bad'' then Some SyntaxError else None),
         defines_FileNotFoundError = True,
         json_load = (\<lambda>s. None),
         json_dump = (\<lambda>d. ''{}'')\<rparr>"

text \<open>
  A device that holds \<open>a.py\<close> and a \<open>versions.json\<close> with its entry, the tracked
  file \<open>a.py\<close> with no update pending, and an updater with an interval of one
  hour whose last update was 100 seconds ago.
\<close>

definition Ma :: OTAFileMetadata where
  "Ma = \<lparr>filename = ''a.py'',
         url = ''https://api.github.com/repos/o/r/contents/a.py'',
         save_backups = False,
         latest = Some ''H1'',
         latest_file = None,
         current = Some ''H1''\<rparr>"

definition D0 :: document where
  "D0 = [(''a.py'', \<lparr>e_latest = Some ''H1'', e_current = Some ''H1''\<rparr>)]"

definition W0 :: world where
  "W0 = \<lparr>fs = [''a.py'' \<mapsto> Text ''old'', ''versions.json'' \<mapsto> Json D0],
         mem_queries = 0, requests = 0, clock = 1000, reset_called = False\<rparr>"

definition U0 :: OTAUpdater where
  "U0 = \<lparr>files_obj = [Ma], update_interval_seconds = Some 3600, last_update_time = Some 900\<rparr>"

text \<open>
  A second tracked file \<open>b.py\<close>; an environment whose first free-memory reading is
  below the floor; an environment whose remote content for \<open>a.py\<close> does not
  compile.
\<close>

definition Mb :: OTAFileMetadata where
  "Mb = \<lparr>filename = ''b.py'',
         url = ''https://api.github.com/repos/o/r/contents/b.py'',
         save_backups = False,
         latest = Some ''H1'',
         latest_file = None,
         current = Some ''H1''\<rparr>"

definition D1 :: document where
  "D1 = [(''a.py'', \<lparr>e_latest = Some ''H1'', e_current = Some ''H1''\<rparr>),
         (''b.py'', \<lparr>e_latest = Some ''H1'', e_current = Some ''H1''\<rparr>)]"

definition W1 :: world where
  "W1 = \<lparr>fs = [''a.py'' \<mapsto> Text ''old'', ''b.py'' \<mapsto> Text ''old'',
               ''versions.json'' \<mapsto> Json D1],
         mem_queries = 0, requests = 0, clock = 1000, reset_called = False\<rparr>"

definition U1 :: OTAUpdater where
  "U1 = \<lparr>files_obj = [Ma, Mb], update_interval_seconds = None, last_update_time = None\<rparr>"

definition E_low :: env where
  "E_low = E0\<lparr>mem_free := (\<lambda>n. if n = 0 then 100 else 50000)\<rparr>"

definition E_bad :: env where
  "E_bad = E0\<lparr>http_get := (\<lambda>n u. if u = url Ma then Reply (Some ''H2'') (Some ''bad'')
                                 else Reply (Some ''H2'') (Some ''new''))\<rparr>"

text \<open>An environment whose remote source reports the fingerprint \<open>H1\<close>, the one the
  tracked files already have.\<close>

definition E_same :: env where
  "E_same = E0\<lparr>http_get := (\<lambda>n u. Reply (Some ''H1'') (Some ''new''))\<rparr>"



text \<open>
  The fingerprint of a content, as \<open>calculate_github_sha\<close> computes it for a file that
  holds the content.
\<close>

definition fingerprint :: "env \<Rightarrow> content \<Rightarrow> string" where
  "fingerprint E c =
     hexdigest (sha1 E (blob_header (length (bytes_of E c)) @ bytes_of E c))"

text \<open>
  An invariant of a tracked file on a device: its staged reference, when set, is
  \<open>__latest__<name>\<close>, and the content of that file, when it exists, satisfies \<open>Q\<close>.
  The instance of \<open>Q\<close> used below: the content has the fingerprint \<open>latest\<close>
  whenever an update is pending.
\<close>

definition staged_inv :: "(OTAFileMetadata \<Rightarrow> content \<Rightarrow> bool) \<Rightarrow> world \<Rightarrow> OTAFileMetadata \<Rightarrow> bool" where
  "staged_inv Q w m \<longleftrightarrow>
     (\<forall>p. latest_file m = Some p \<longrightarrow>
        p = LATEST_FILE_PREFIX @ filename m \<and> (\<forall>c. fs w p = Some c \<longrightarrow> Q m c))"

definition staged_matches :: "env \<Rightarrow> OTAFileMetadata \<Rightarrow> content \<Rightarrow> bool" where
  "staged_matches E m c \<longleftrightarrow>
     (new_version_available m \<longrightarrow> latest m = Some (fingerprint E c))"

text \<open>
  The remote source is honest when every reply that carries a fingerprint carries
  content that decodes and has that fingerprint (the requirement of the spec on the
  remote content collaborator).
\<close>

definition honest_remote :: "env \<Rightarrow> bool" where
  "honest_remote E \<longleftrightarrow>
     (\<forall>n u s cont. http_get E n u = Reply (Some s) cont \<longrightarrow>
        (\<exists>b64 c. cont = Some b64 \<and> a2b_base64 E b64 = Some c \<and> utf8_valid E c
                 \<and> s = fingerprint E (Text c)))"

text \<open>
  The tracked names are well formed when they are distinct and none is the name of
  the version store, or the staging name or the backup name of a tracked file.
\<close>

definition well_named :: "OTAFileMetadata list \<Rightarrow> bool" where
  "well_named ms \<longleftrightarrow>
     (let names = map filename ms
      in distinct names \<and>
         (\<forall>n\<in>set names. n \<noteq> DB_FILE \<and>
            (\<forall>n'\<in>set names. n \<noteq> LATEST_FILE_PREFIX @ n'
                           \<and> n \<noteq> BACKUP_FILE_PREFIX @ n')))"

text \<open>
  How the promotion loop relates a tracked file before and after: it is unchanged,
  or an update was pending and it was promoted from \<open>__latest__<name>\<close>, and the live
  file now holds a content that satisfies \<open>Q\<close>.
\<close>

definition promotion_rel :: "(OTAFileMetadata \<Rightarrow> content \<Rightarrow> bool) \<Rightarrow> world
    \<Rightarrow> OTAFileMetadata \<Rightarrow> OTAFileMetadata \<Rightarrow> bool" where
  "promotion_rel Q w' m m' \<longleftrightarrow>
     m' = m \<or>
     (new_version_available m \<and> m' = m\<lparr>current := latest m\<rparr> \<and>
      latest_file m = Some (LATEST_FILE_PREFIX @ filename m) \<and>
      (\<exists>c. fs w' (filename m) = Some c \<and> Q m c))"

text \<open>
  Readers for the two renderings of \<open>calculate_github_sha\<close>, to state what they
  render. \<open>decimal_value\<close> is the number that a string of decimal digits denotes;
  it accepts only the canonical form (not empty, no leading zero). \<open>hex_decode\<close>
  is the byte string that a string of pairs of lowercase hexadecimal digits
  denotes.
\<close>

fun read_decimal :: "nat \<Rightarrow> string \<Rightarrow> nat option" where
  "read_decimal acc [] = Some acc"
| "read_decimal acc (c # cs) =
     (if c \<in> set ''0123456789'' then read_decimal (10 * acc + (of_char c - 48)) cs else None)"

definition decimal_value :: "string \<Rightarrow> nat option" where
  "decimal_value s =
     (if s = [] \<or> (hd s = CHR ''0'' \<and> s \<noteq> ''0'') then None else read_decimal 0 s)"

definition hex_value :: "char \<Rightarrow> nat option" where
  "hex_value c =
     (let n = of_char c :: nat
      in if 48 \<le> n \<and> n \<le> 57 then Some (n - 48)
         else if 97 \<le> n \<and> n \<le> 102 then Some (n - 87)
         else None)"

fun hex_decode :: "string \<Rightarrow> string option" where
  "hex_decode [] = Some []"
| "hex_decode [c] = None"
| "hex_decode (a # b # cs) =
     (case (hex_value a, hex_value b, hex_decode cs) of
        (Some h, Some l, Some bs) \<Rightarrow> Some (char_of (16 * h + l) # bs)
      | _ \<Rightarrow> None)"

text \<open>The environment \<open>E0\<close> with the identity as its stand-in for SHA-1: the
  fingerprint then shows the whole hashed byte string.\<close>

definition E_id :: env where
  "E_id = E0\<lparr>sha1 := (\<lambda>s. s)\<rparr>"

text \<open>
  Two environments whose first reply announces a new fingerprint and whose later
  replies carry no \<open>sha\<close> key (a message of the remote service instead of a file).
  In \<open>E_bin\<close> the announced fingerprint is that of the content, and the content is
  not valid UTF-8. In \<open>E_mp\<close> the content is the text \<open>bad\<close>, which the compiler
  rejects, and the runtime does not define \<open>FileNotFoundError\<close>. The traces are
  two successive forced calls of \<open>updated\<close> on the updater \<open>U0\<close> and the device
  \<open>W0\<close>, the second call on the updater and the device that the first has left.
\<close>

definition E_bin :: env where
  "E_bin = E0\<lparr>http_get := (\<lambda>n u. if n = 0 then Reply (Some ''6e69'') (Some ''bin'')
                                else Reply None None),
               utf8_valid := (\<lambda>s. s \<noteq> ''bin'')\<rparr>"

definition E_mp :: env where
  "E_mp = E0\<lparr>http_get := (\<lambda>n u. if n = 0 then Reply (Some ''H2'') (Some ''bad'')
                               else Reply None None),
              defines_FileNotFoundError := False\<rparr>"

definition bin_first :: "(error + bool option) \<times> OTAUpdater \<times> world" where
  "bin_first = updated E_bin True U0 W0"

definition bin_second :: "(error + bool option) \<times> OTAUpdater \<times> world" where
  "bin_second = updated E_bin True (fst (snd bin_first)) (snd (snd bin_first))"

definition mp_first :: "(error + bool option) \<times> OTAUpdater \<times> world" where
  "mp_first = updated E_mp True U0 W0"

definition mp_second :: "(error + bool option) \<times> OTAUpdater \<times> world" where
  "mp_second = updated E_mp True (fst (snd mp_first)) (snd (snd mp_first))"

text \<open>
  An honest remote source: the fingerprint \<open>7765\<close> that it reports is the
  fingerprint of the content \<open>new\<close> that it sends.
\<close>

definition E_h :: env where
  "E_h = E0\<lparr>http_get := (\<lambda>n u. Reply (Some ''7765'') (Some ''new''))\<rparr>"

section \<open>Properties\<close>

subsection \<open>The fingerprint\<close>

lemma read_chunks_all: "read_chunks rest data = data @ rest"
proof (induction rest data rule: read_chunks.induct)
  case (1 rest data)
  show ?case
  proof (cases "take 1024 rest = []")
    case True
    then show ?thesis by (subst read_chunks.simps) (simp add: Let_def)
  next
    case False
    then have "read_chunks rest data = read_chunks (drop 1024 rest) (data @ take 1024 rest)"
      by (subst read_chunks.simps) (simp add: Let_def)
    also have "\<dots> = (data @ take 1024 rest) @ drop 1024 rest"
      using 1 False by simp
    finally show ?thesis by simp
  qed
qed

lemma lt10_cases:
  "(d::nat) < 10 \<Longrightarrow> d = 0 \<or> d = 1 \<or> d = 2 \<or> d = 3 \<or> d = 4 \<or> d = 5 \<or> d = 6 \<or> d = 7
     \<or> d = 8 \<or> d = 9"
  by arith

lemma lt16_cases:
  "(d::nat) < 16 \<Longrightarrow> d = 0 \<or> d = 1 \<or> d = 2 \<or> d = 3 \<or> d = 4 \<or> d = 5 \<or> d = 6 \<or> d = 7
     \<or> d = 8 \<or> d = 9 \<or> d = 10 \<or> d = 11 \<or> d = 12 \<or> d = 13 \<or> d = 14 \<or> d = 15"
  by arith

lemma digit_props:
  assumes "d < 10"
  shows "digit d \<in> set ''0123456789'' \<and> of_char (digit d) - 48 = d \<and> (digit d = CHR ''0'' \<longleftrightarrow> d = 0)"
  using lt10_cases [OF assms] by (auto simp add: digit_def)

lemma hex_value_hex_digit:
  assumes "d < 16"
  shows "hex_value (hex_digit d) = Some d"
  using lt16_cases [OF assms] by (auto simp add: hex_digit_def hex_value_def)

lemma read_decimal_append:
  "read_decimal acc (xs @ [c]) =
     (case read_decimal acc xs of
        None \<Rightarrow> None
      | Some v \<Rightarrow> if c \<in> set ''0123456789'' then Some (10 * v + (of_char c - 48)) else None)"
  by (induction xs arbitrary: acc) auto

lemma read_decimal_decimal: "read_decimal 0 (decimal n) = Some n"
proof (induction n rule: decimal.induct)
  case (1 n)
  show ?case
  proof (cases "n < 10")
    case True
    then show ?thesis using digit_props [of n] by (subst decimal.simps) auto
  next
    case False
    have m: "n mod 10 < 10" by simp
    from False have "decimal n = decimal (n div 10) @ [digit (n mod 10)]"
      by (subst decimal.simps) simp
    then show ?thesis
      using 1 False digit_props [OF m] by (auto simp add: read_decimal_append)
  qed
qed

lemma decimal_canonical: "decimal n \<noteq> [] \<and> (hd (decimal n) = CHR ''0'' \<longrightarrow> n = 0)"
proof (induction n rule: decimal.induct)
  case (1 n)
  show ?case
  proof (cases "n < 10")
    case True
    then show ?thesis using digit_props [of n] by (subst (1 2) decimal.simps) simp
  next
    case False
    then have e: "decimal n = decimal (n div 10) @ [digit (n mod 10)]"
      by (subst decimal.simps) simp
    from False have "n div 10 \<noteq> 0" by simp
    with 1 False have "decimal (n div 10) \<noteq> []" "hd (decimal (n div 10)) \<noteq> CHR ''0''"
      by simp_all
    then show ?thesis using False by (simp add: e)
  qed
qed

lemma decimal_value_decimal: "decimal_value (decimal n) = Some n"
proof -
  have "decimal 0 = ''0''" by (subst decimal.simps) (simp add: digit_def)
  then show ?thesis
    using decimal_canonical [of n] read_decimal_decimal [of n]
    by (auto simp add: decimal_value_def)
qed

lemma of_char_lt_256: "(of_char c :: nat) < 256"
proof -
  have "(of_char c :: nat) mod 256 = of_char c" by simp
  then show ?thesis by (metis mod_less_divisor zero_less_numeral)
qed

lemma hex_decode_hex_byte:
  "hex_decode (hex_byte b @ s) = (case hex_decode s of None \<Rightarrow> None | Some bs \<Rightarrow> Some (b # bs))"
proof -
  let ?n = "of_char b :: nat"
  have h: "?n div 16 < 16"
    by (rule less_mult_imp_div_less) (use of_char_lt_256 [of b] in simp)
  have l: "?n mod 16 < 16" by simp
  have "char_of (16 * (?n div 16) + ?n mod 16) = b" by simp
  then show ?thesis
    using hex_value_hex_digit [OF h] hex_value_hex_digit [OF l]
    by (simp add: hex_byte_def split: option.splits)
qed

lemma hex_decode_hexdigest: "hex_decode (hexdigest s) = Some s"
  by (induction s) (simp_all add: hexdigest_def hex_decode_hex_byte)

text \<open>
  Claim C8. \<open>calculate_github_sha\<close> returns the empty string for a file that does
  not exist. For a file whose bytes are \<open>c\<close> it returns, as pairs of lowercase
  hexadecimal digits, the digest of \<open>"blob " + d + NUL + c\<close>, where \<open>d\<close> is the
  length of \<open>c\<close> in decimal digits. So two files with the same bytes have the same
  fingerprint, whatever their names and whatever else is on the device.
\<close>

theorem calculate_github_sha_content_addressed:
  "(f name = None \<longrightarrow> calculate_github_sha E f name = []) \<and>
   (f name = Some c \<longrightarrow>
      (\<exists>d. decimal_value d = Some (length (bytes_of E c)) \<and>
           hex_decode (calculate_github_sha E f name)
             = Some (sha1 E (''blob '' @ d @ [CHR 0x00] @ bytes_of E c)))) \<and>
   (f name = Some c \<and> f' name' = Some c' \<and> bytes_of E c = bytes_of E c' \<longrightarrow>
      calculate_github_sha E f name = calculate_github_sha E f' name')"
proof (intro conjI impI)
  assume "f name = None"
  then show "calculate_github_sha E f name = []" by (simp add: calculate_github_sha_def)
next
  assume a: "f name = Some c"
  let ?d = "decimal (length (bytes_of E c))"
  have "hex_decode (calculate_github_sha E f name)
             = Some (sha1 E (''blob '' @ ?d @ [CHR 0x00] @ bytes_of E c))"
    using a
    by (simp add: calculate_github_sha_def read_chunks_all blob_header_def Let_def
        hex_decode_hexdigest)
  then show "\<exists>d. decimal_value d = Some (length (bytes_of E c)) \<and>
           hex_decode (calculate_github_sha E f name)
             = Some (sha1 E (''blob '' @ d @ [CHR 0x00] @ bytes_of E c))"
    using decimal_value_decimal by blast
next
  assume "f name = Some c \<and> f' name' = Some c' \<and> bytes_of E c = bytes_of E c'"
  then show "calculate_github_sha E f name = calculate_github_sha E f' name'"
    by (simp add: calculate_github_sha_def)
qed

theorem calculate_github_sha_content_addressed_witness:
  "calculate_github_sha E_id Map.empty ''a.py'' = [] \<and>
   (\<exists>d. decimal_value d = Some 12 \<and>
        hex_decode (calculate_github_sha E_id [''a.py'' \<mapsto> Text ''hello world!''] ''a.py'')
          = Some (''blob '' @ d @ [CHR 0x00] @ ''hello world!'')) \<and>
   calculate_github_sha E_id [''a.py'' \<mapsto> Text ''hello world!''] ''a.py''
     = ''626c6f622031320068656c6c6f20776f726c6421'' \<and>
   calculate_github_sha E_id [''a.py'' \<mapsto> Text ''hello world!''] ''a.py''
     = calculate_github_sha E_id
         [''b.py'' \<mapsto> Text ''hello world!'', ''a.py'' \<mapsto> Text ''x''] ''b.py''"
proof -
  let ?f = "[''a.py'' \<mapsto> Text ''hello world!'']"
  let ?g = "[''b.py'' \<mapsto> Text ''hello world!'', ''a.py'' \<mapsto> Text ''x'']"
  note t = calculate_github_sha_content_addressed [where f = ?f and name = "''a.py''"
       and c = "Text ''hello world!''" and E = E_id and f' = ?g and name' = "''b.py''"
       and c' = "Text ''hello world!''"]
  have pre: "?f ''a.py'' = Some (Text ''hello world!'')" "?g ''b.py'' = Some (Text ''hello world!'')"
    by simp_all
  have a: "calculate_github_sha E_id Map.empty ''a.py'' = []"
    using calculate_github_sha_content_addressed [where f = "Map.empty" and name = "''a.py''"
        and E = E_id]
    by simp
  have "\<exists>d. decimal_value d = Some (length (bytes_of E_id (Text ''hello world!''))) \<and>
        hex_decode (calculate_github_sha E_id ?f ''a.py'')
          = Some (sha1 E_id (''blob '' @ d @ [CHR 0x00] @ bytes_of E_id (Text ''hello world!'')))"
    using t pre by blast
  then obtain d where d1: "decimal_value d = Some (length (bytes_of E_id (Text ''hello world!'')))"
    and d2: "hex_decode (calculate_github_sha E_id ?f ''a.py'')
          = Some (sha1 E_id (''blob '' @ d @ [CHR 0x00] @ bytes_of E_id (Text ''hello world!'')))"
    by blast
  have l: "length (bytes_of E_id (Text ''hello world!'')) = 12"
    by (simp add: bytes_of_def)
  have i: "sha1 E_id = (\<lambda>s. s)" by (simp add: E_id_def)
  from d1 l have e1: "decimal_value d = Some 12" by simp
  from d2 have e2: "hex_decode (calculate_github_sha E_id ?f ''a.py'')
          = Some (''blob '' @ d @ [CHR 0x00] @ ''hello world!'')"
    unfolding i by (simp add: bytes_of_def)
  from e1 e2 have b: "\<exists>d. decimal_value d = Some 12 \<and>
        hex_decode (calculate_github_sha E_id ?f ''a.py'')
          = Some (''blob '' @ d @ [CHR 0x00] @ ''hello world!'')"
    by blast
  have c: "calculate_github_sha E_id ?f ''a.py'' = ''626c6f622031320068656c6c6f20776f726c6421''"
    by (simp add: calculate_github_sha_def read_chunks_all blob_header_def bytes_of_def
        decimal.simps digit_def hexdigest_def hex_byte_def hex_digit_def E_id_def E0_def)
  have d: "calculate_github_sha E_id ?f ''a.py'' = calculate_github_sha E_id ?g ''b.py''"
    using t pre by blast
  show ?thesis using a b c d by blast
qed

subsection \<open>Evaluation on concrete devices\<close>

lemmas eval_defs = updated_def check_and_apply_updates_def check_for_updates_def fetch_updates_def
  update_latest_def mem_check_def stage_def new_version_available_def valid_code_def bytes_of_def
  rename_def set_current_to_latest_def OTADatabase_update_def OTADatabase_delete_def
  OTADatabase_read_def OTADatabase_write_def entry_exists_def to_json_def sleep_def
  LATEST_FILE_PREFIX_def ERROR_FILE_PREFIX_def BACKUP_FILE_PREFIX_def OTA_MINIMUM_MEMORY_def
  DB_FILE_def Let_def

subsection \<open>The version store\<close>

lemma OTADatabase_write_twice [simp]:
  "OTADatabase_write d2 (OTADatabase_write d1 w) = OTADatabase_write d2 w"
  by (simp add: OTADatabase_write_def)

lemma OTADatabase_read_write [simp]:
  "OTADatabase_read E (OTADatabase_write d w) = Inr (Some d)"
  by (simp add: OTADatabase_read_def OTADatabase_write_def)

lemma OTADatabase_delete_present:
  assumes "OTADatabase_read E w = Inr (Some d)"
  shows "OTADatabase_delete E name w =
    (None, if name \<in> fst ` set d then OTADatabase_write (AList.delete name d) w else w)"
  using assms by (cases "d = []") (auto simp add: OTADatabase_delete_def entry_exists_def)

lemma OTADatabase_update_present:
  assumes "OTADatabase_read E w = Inr (Some d)"
  shows "OTADatabase_update E (name, e) w = (None, OTADatabase_write (AList.update name e d) w)"
  using assms by (simp add: OTADatabase_update_def OTADatabase_delete_present)

lemma OTADatabase_update_absent:
  assumes "fs w DB_FILE = None"
  shows "OTADatabase_update E item w = (Some AttributeError, w)"
  using assms
  by (simp add: OTADatabase_update_def OTADatabase_delete_def entry_exists_def OTADatabase_read_def)

text \<open>
  Claim C9. When \<open>versions.json\<close> holds the document \<open>d\<close>,
  \<open>OTADatabase.update\<close> succeeds and rewrites the whole file with \<open>d\<close> in which
  the entry of the filename is replaced (added when it had none); the \<open>delete\<close> it
  calls on the way rewrites the file without that entry. When there is no
  \<open>versions.json\<close>, \<open>update\<close> raises (\<open>AttributeError\<close>, from \<open>None.update\<close>)
  and creates no file.
\<close>

theorem OTADatabase_update_replaces_or_fails:
  "(OTADatabase_read E w = Inr (Some d) \<longrightarrow>
      OTADatabase_update E (name, e) w
        = (None, w\<lparr>fs := (fs w)(DB_FILE \<mapsto> Json (AList.update name e d))\<rparr>) \<and>
      OTADatabase_read E (snd (OTADatabase_update E (name, e) w))
        = Inr (Some (AList.update name e d)) \<and>
      map_of (AList.update name e d) = (map_of d)(name \<mapsto> e) \<and>
      OTADatabase_delete E name w
        = (None, if name \<in> fst ` set d
                 then w\<lparr>fs := (fs w)(DB_FILE \<mapsto> Json (AList.delete name d))\<rparr> else w)) \<and>
   (fs w DB_FILE = None \<longrightarrow>
      OTADatabase_update E (name, e) w = (Some AttributeError, w))"
proof (intro conjI impI)
  assume r: "OTADatabase_read E w = Inr (Some d)"
  show u: "OTADatabase_update E (name, e) w
      = (None, w\<lparr>fs := (fs w)(DB_FILE \<mapsto> Json (AList.update name e d))\<rparr>)"
    using OTADatabase_update_present [OF r] by (simp add: OTADatabase_write_def)
  show "OTADatabase_read E (snd (OTADatabase_update E (name, e) w))
        = Inr (Some (AList.update name e d))"
    using OTADatabase_update_present [OF r] by simp
  show "map_of (AList.update name e d) = (map_of d)(name \<mapsto> e)"
    by (rule update_conv')
  show "OTADatabase_delete E name w
        = (None, if name \<in> fst ` set d
                 then w\<lparr>fs := (fs w)(DB_FILE \<mapsto> Json (AList.delete name d))\<rparr> else w)"
    using OTADatabase_delete_present [OF r] by (simp add: OTADatabase_write_def)
next
  assume "fs w DB_FILE = None"
  then show "OTADatabase_update E (name, e) w = (Some AttributeError, w)"
    by (rule OTADatabase_update_absent)
qed

theorem OTADatabase_update_replaces_or_fails_witness:
  "OTADatabase_update E0 (''a.py'', \<lparr>e_latest = Some ''H2'', e_current = Some ''H2''\<rparr>) W0
     = (None, W0\<lparr>fs := (fs W0)(DB_FILE \<mapsto>
          Json [(''a.py'', \<lparr>e_latest = Some ''H2'', e_current = Some ''H2''\<rparr>)])\<rparr>) \<and>
   OTADatabase_update E0 (''a.py'', \<lparr>e_latest = Some ''H2'', e_current = Some ''H2''\<rparr>)
       (W0\<lparr>fs := Map.empty\<rparr>)
     = (Some AttributeError, W0\<lparr>fs := Map.empty\<rparr>)"
proof -
  let ?e = "\<lparr>e_latest = Some ''H2'', e_current = Some ''H2''\<rparr>"
  have r: "OTADatabase_read E0 W0 = Inr (Some D0)"
    by (simp add: OTADatabase_read_def W0_def DB_FILE_def)
  have n: "fs (W0\<lparr>fs := Map.empty\<rparr>) DB_FILE = None"
    by simp
  have "OTADatabase_update E0 (''a.py'', ?e) W0
     = (None, W0\<lparr>fs := (fs W0)(DB_FILE \<mapsto> Json (AList.update ''a.py'' ?e D0))\<rparr>)"
    using OTADatabase_update_replaces_or_fails [where E = E0 and w = W0 and d = D0
        and name = "''a.py''" and e = ?e] r
    by blast
  moreover have "OTADatabase_update E0 (''a.py'', ?e) (W0\<lparr>fs := Map.empty\<rparr>)
     = (Some AttributeError, W0\<lparr>fs := Map.empty\<rparr>)"
    using OTADatabase_update_replaces_or_fails [where E = E0 and w = "W0\<lparr>fs := Map.empty\<rparr>"
        and name = "''a.py''" and e = ?e] n
    by blast
  ultimately show ?thesis by (simp add: D0_def)
qed

subsection \<open>The update interval of \<open>updated\<close>\<close>

text \<open>
  Claim C6. With an interval configured, a recorded last update and less than the
  interval elapsed since, \<open>updated(force_update=False)\<close> returns \<open>False\<close> and
  changes nothing: not the tracked files, not the device (files, store, request
  counter).
\<close>

theorem updated_within_interval_is_noop:
  assumes "update_interval_seconds u = Some interval"
    and "last_update_time u = Some t"
    and "clock w - t < interval"
  shows "updated E False u w = (Inr (Some False), u, w)"
  using assms by (simp add: updated_def Let_def)

theorem updated_within_interval_is_noop_witness:
  "updated E0 False U0 W0 = (Inr (Some False), U0, W0)"
proof -
  have "update_interval_seconds U0 = Some 3600" "last_update_time U0 = Some 900"
       "clock W0 - 900 < 3600"
    by (simp_all add: U0_def W0_def)
  then show ?thesis by (rule updated_within_interval_is_noop)
qed

lemma updated_never_True: "fst (updated E force u w) \<noteq> Inr (Some True)"
  by (auto simp add: updated_def check_and_apply_updates_def Let_def
      split: prod.splits sum.splits bool.splits option.splits if_splits)


text \<open>
  Claim C3, on the code. A forced call that promotes \<open>a.py\<close> records
  \<open>last_update_time\<close>, sleeps one second and calls \<open>machine.reset()\<close>, and then
  \<open>_check_and_apply_updates\<close> ends without a \<open>return\<close>: the call returns
  \<open>None\<close>, not \<open>True\<close>.
\<close>

theorem updated_returns_None_after_promotion:
  "fst (updated E0 True U0 W0) = Inr None \<and>
   fst (updated E0 True U0 W0) \<noteq> Inr (Some True) \<and>
   last_update_time (fst (snd (updated E0 True U0 W0))) = Some 1000 \<and>
   map current (files_obj (fst (snd (updated E0 True U0 W0)))) = [Some ''H2''] \<and>
   fs (snd (snd (updated E0 True U0 W0))) ''a.py'' = Some (Text ''new'') \<and>
   clock (snd (snd (updated E0 True U0 W0))) = 1001 \<and>
   reset_called (snd (snd (updated E0 True U0 W0)))"
  by (simp add: eval_defs E0_def U0_def W0_def Ma_def D0_def)

subsection \<open>Exceptions in the fetch loop\<close>

lemma fetch_loop_stops:
  assumes "fetch_loop E pre w = (None, pre', w1)"
    and "update_latest E m w1 = (Some e, m', w2)"
  shows "fetch_loop E (pre @ m # post) w = (Some e, pre' @ m' # post, w2)"
  using assms
proof (induction pre arbitrary: w pre')
  case Nil
  then show ?case by simp
next
  case (Cons a pre)
  obtain r a1 wa where a: "update_latest E a w = (r, a1, wa)"
    by (cases "update_latest E a w") auto
  obtain r2 ms2 wb where b: "fetch_loop E pre wa = (r2, ms2, wb)"
    by (cases "fetch_loop E pre wa") auto
  from Cons.prems(1) a b have r: "r = None" and r2: "r2 = None" and p: "pre' = a1 # ms2"
    and wb: "wb = w1"
    by (auto split: option.splits)
  from Cons.IH [of wa ms2] b r2 wb Cons.prems(2)
  have "fetch_loop E (pre @ m # post) wa = (Some e, ms2 @ m' # post, w2)" by simp
  with a r p show ?case by simp
qed

lemma fetch_updates_stops_on_validation_error:
  assumes "fetch_loop E pre w = (None, pre', w1)"
    and "update_latest E m w1 = (Some OTANewFileWillNotValidate, m', w2)"
  shows "fetch_updates E (pre @ m # post) w = (None, pre' @ m' # post, w2)"
  using fetch_loop_stops [OF assms] by (simp add: fetch_updates_def)

lemma mem_check_low:
  assumes "mem_free E (mem_queries w) < OTA_MINIMUM_MEMORY"
  shows "update_latest E m w = (Some OTANoMemory, m, w\<lparr>mem_queries := Suc (mem_queries w)\<rparr>)"
  using assms by (simp add: update_latest_def mem_check_def Let_def)

text \<open>
  Claim C1, as the code has it. When \<open>update_latest\<close> of one file raises
  \<open>OTANoMemory\<close> (the files before it having been fetched without an exception),
  the pass ends there: \<open>fetch_updates\<close>, \<open>_check_for_updates\<close> and \<open>updated\<close>
  raise \<open>OTANoMemory\<close> to the caller, the files after it are not fetched, and the
  device is left as that fetch left it, so nothing is promoted.
\<close>

theorem low_memory_aborts_pass:
  assumes "fetch_loop E pre w = (None, pre', w1)"
    and "update_latest E m w1 = (Some OTANoMemory, m', w2)"
    and "files_obj u = pre @ m # post"
  shows "fetch_updates E (pre @ m # post) w = (Some OTANoMemory, pre' @ m' # post, w2) \<and>
         check_for_updates E (pre @ m # post) w = (Inl OTANoMemory, pre' @ m' # post, w2) \<and>
         updated E True u w = (Inl OTANoMemory, u\<lparr>files_obj := pre' @ m' # post\<rparr>, w2)"
proof -
  have l: "fetch_loop E (pre @ m # post) w = (Some OTANoMemory, pre' @ m' # post, w2)"
    using assms(1,2) by (rule fetch_loop_stops)
  then have f: "fetch_updates E (pre @ m # post) w = (Some OTANoMemory, pre' @ m' # post, w2)"
    by (simp add: fetch_updates_def)
  then have c: "check_for_updates E (pre @ m # post) w = (Inl OTANoMemory, pre' @ m' # post, w2)"
    by (simp add: check_for_updates_def)
  then have "updated E True u w = (Inl OTANoMemory, u\<lparr>files_obj := pre' @ m' # post\<rparr>, w2)"
    using assms(3) by (simp add: updated_def check_and_apply_updates_def)
  with f c show ?thesis by simp
qed

theorem low_memory_aborts_pass_witness:
  "updated E_low True U1 W1 = (Inl OTANoMemory, U1, W1\<lparr>mem_queries := 1\<rparr>)"
proof -
  have 1: "fetch_loop E_low [] W1 = (None, [], W1)" by simp
  have 2: "update_latest E_low Ma W1 = (Some OTANoMemory, Ma, W1\<lparr>mem_queries := 1\<rparr>)"
    by (simp add: update_latest_def mem_check_def Let_def E_low_def E0_def W1_def
        OTA_MINIMUM_MEMORY_def)
  have 3: "files_obj U1 = [] @ Ma # [Mb]" by (simp add: U1_def)
  from low_memory_aborts_pass [OF 1 2 3] show ?thesis by (simp add: U1_def)
qed

text \<open>
  Claim C1 as stated fails: the first free-memory reading is below the floor and
  all later ones are above it, yet the caller of \<open>updated\<close> gets \<open>OTANoMemory\<close>,
  no request was sent, and \<open>b.py\<close> is as it was.
\<close>

theorem low_memory_propagates_counterexample:
  "fst (updated E_low True U1 W1) = Inl OTANoMemory \<and>
   requests (snd (snd (updated E_low True U1 W1))) = 0 \<and>
   files_obj (fst (snd (updated E_low True U1 W1))) ! 1 = Mb"
  by (simp add: eval_defs E_low_def E0_def U1_def W1_def Ma_def Mb_def D1_def)

text \<open>
  Claim C2, on the code. The remote content of \<open>a.py\<close> does not compile, that of
  \<open>b.py\<close> does, and both fingerprints are new. \<open>fetch_updates\<close> catches the
  exception of \<open>a.py\<close> outside its loop: it returns normally after one request,
  with \<open>a.py\<close> quarantined and \<open>b.py\<close> never fetched. The pass then tries to
  promote \<open>a.py\<close>, which has no staged file, and raises \<open>TypeError\<close>.
\<close>

theorem validation_failure_stops_fetching:
  "fst (fetch_updates E_bad [Ma, Mb] W1) = None \<and>
   requests (snd (snd (fetch_updates E_bad [Ma, Mb] W1))) = 1 \<and>
   fst (snd (fetch_updates E_bad [Ma, Mb] W1)) = [Ma\<lparr>latest := Some ''H2''\<rparr>, Mb] \<and>
   fs (snd (snd (fetch_updates E_bad [Ma, Mb] W1))) ''__error__a.py'' = Some (Text ''bad'') \<and>
   fs (snd (snd (fetch_updates E_bad [Ma, Mb] W1))) ''__latest__b.py'' = None \<and>
   fst (check_for_updates E_bad [Ma, Mb] W1) = Inl TypeError"
  by (simp add: eval_defs E_bad_def E0_def U1_def W1_def Ma_def Mb_def D1_def)

subsection \<open>A fetch that finds the same fingerprint\<close>

lemma update_latest_same_sha:
  assumes "http_get E (requests w) (url m) = Reply (Some s) cont"
    and "current m = Some s"
  shows "update_latest E m w =
     (if mem_free E (mem_queries w) < OTA_MINIMUM_MEMORY
      then (Some OTANoMemory, m, w\<lparr>mem_queries := Suc (mem_queries w)\<rparr>)
      else if mem_free E (Suc (mem_queries w)) < OTA_MINIMUM_MEMORY
      then (Some OTANoMemory, m,
            w\<lparr>mem_queries := Suc (Suc (mem_queries w)), requests := Suc (requests w)\<rparr>)
      else (None, m\<lparr>latest := Some s\<rparr>,
            w\<lparr>mem_queries := Suc (Suc (mem_queries w)), requests := Suc (requests w)\<rparr>))"
  using assms
  by (simp add: update_latest_def mem_check_def stage_def new_version_available_def Let_def)

lemma update_latest_changes_fs:
  assumes "fs (snd (snd (update_latest E m w))) \<noteq> fs w"
  shows "\<exists>s cont. http_get E (requests w) (url m) = Reply (Some s) cont \<and> current m \<noteq> Some s"
  using assms
  by (auto simp add: update_latest_def mem_check_def stage_def new_version_available_def Let_def
      sleep_def rename_def
      split: if_splits response.splits error.splits option.splits prod.splits sum.splits bool.splits)

lemma apply_loop_nothing:
  assumes "\<forall>m\<in>set ms. \<not> new_version_available m"
  shows "apply_loop E ms w flag = (None, ms, w, flag)"
  using assms by (induction ms) auto

lemma fetch_loop_same_sha:
  assumes "\<forall>m\<in>set ms. \<forall>n. \<exists>s cont. http_get E n (url m) = Reply (Some s) cont \<and> current m = Some s"
  shows "\<exists>r ms' w'. fetch_loop E ms w = (r, ms', w') \<and> fs w' = fs w \<and>
           map current ms' = map current ms \<and>
           (r = None \<and> (\<forall>m\<in>set ms'. \<not> new_version_available m)
            \<or> r = Some OTANoMemory \<and> (\<exists>n. mem_free E n < OTA_MINIMUM_MEMORY))"
  using assms
proof (induction ms arbitrary: w)
  case Nil
  then show ?case by simp
next
  case (Cons m ms)
  from Cons.prems obtain s cont where
    g: "http_get E (requests w) (url m) = Reply (Some s) cont" and c: "current m = Some s"
    by (metis list.set_intros(1))
  note u = update_latest_same_sha [OF g c]
  show ?case
  proof (cases "mem_free E (mem_queries w) < OTA_MINIMUM_MEMORY
               \<or> mem_free E (Suc (mem_queries w)) < OTA_MINIMUM_MEMORY")
    case True
    then show ?thesis using u by auto
  next
    case False
    let ?w1 = "w\<lparr>mem_queries := Suc (Suc (mem_queries w)), requests := Suc (requests w)\<rparr>"
    from False u have u1: "update_latest E m w = (None, m\<lparr>latest := Some s\<rparr>, ?w1)" by simp
    from Cons.prems have "\<forall>m\<in>set ms. \<forall>n. \<exists>s cont.
        http_get E n (url m) = Reply (Some s) cont \<and> current m = Some s" by simp
    from Cons.IH [OF this, of ?w1] obtain r ms' w' where
      l: "fetch_loop E ms ?w1 = (r, ms', w')" and f: "fs w' = fs ?w1"
      and mc: "map current ms' = map current ms"
      and d: "r = None \<and> (\<forall>m\<in>set ms'. \<not> new_version_available m)
            \<or> r = Some OTANoMemory \<and> (\<exists>n. mem_free E n < OTA_MINIMUM_MEMORY)"
      by blast
    have "fetch_loop E (m # ms) w = (r, m\<lparr>latest := Some s\<rparr> # ms', w')"
      using u1 l by simp
    moreover have "\<not> new_version_available (m\<lparr>latest := Some s\<rparr>)"
      using c by (simp add: new_version_available_def)
    ultimately show ?thesis using f mc d by auto
  qed
qed

lemma check_for_updates_same_sha:
  assumes "\<forall>m\<in>set ms. \<forall>n. \<exists>s cont. http_get E n (url m) = Reply (Some s) cont \<and> current m = Some s"
  shows "fs (snd (snd (check_for_updates E ms w))) = fs w \<and>
         map current (fst (snd (check_for_updates E ms w))) = map current ms \<and>
         (fst (check_for_updates E ms w) = Inr False \<or>
          fst (check_for_updates E ms w) = Inl OTANoMemory
            \<and> (\<exists>n. mem_free E n < OTA_MINIMUM_MEMORY))"
proof -
  from fetch_loop_same_sha [OF assms, of w] obtain r ms' w' where
      l: "fetch_loop E ms w = (r, ms', w')" and f: "fs w' = fs w"
      and mc: "map current ms' = map current ms"
      and d: "r = None \<and> (\<forall>m\<in>set ms'. \<not> new_version_available m)
            \<or> r = Some OTANoMemory \<and> (\<exists>n. mem_free E n < OTA_MINIMUM_MEMORY)"
    by blast
  from d show ?thesis
  proof
    assume a: "r = None \<and> (\<forall>m\<in>set ms'. \<not> new_version_available m)"
    then have "apply_loop E ms' w' False = (None, ms', w', False)"
      by (simp add: apply_loop_nothing)
    with a l f mc show ?thesis
      by (simp add: check_for_updates_def fetch_updates_def)
  next
    assume a: "r = Some OTANoMemory \<and> (\<exists>n. mem_free E n < OTA_MINIMUM_MEMORY)"
    with l f mc show ?thesis
      by (simp add: check_for_updates_def fetch_updates_def)
  qed
qed

lemma update_latest_ignores_content:
  assumes "http_get E (requests w) (url m) = Reply (Some s) cont"
    and "current m = Some s"
  shows "update_latest (E\<lparr>http_get := (\<lambda>n u. Reply (Some s) cont')\<rparr>) m w = update_latest E m w"
proof -
  let ?E = "E\<lparr>http_get := (\<lambda>n u. Reply (Some s) cont')\<rparr>"
  have "http_get ?E (requests w) (url m) = Reply (Some s) cont'" by simp
  from update_latest_same_sha [OF this assms(2)] update_latest_same_sha [OF assms]
  show ?thesis by simp
qed

lemma update_latest_sends_request:
  assumes "OTA_MINIMUM_MEMORY \<le> mem_free E (mem_queries w)"
  shows "requests (snd (snd (update_latest E m w))) = Suc (requests w)"
  using assms
  by (auto simp add: update_latest_def mem_check_def stage_def Let_def sleep_def rename_def
      split: if_splits response.splits error.splits option.splits prod.splits sum.splits
        bool.splits)

text \<open>
  Claim C7 as stated fails. The remote fingerprint of \<open>a.py\<close> is the one \<open>current\<close>
  holds, yet \<open>update_latest\<close> sends its request, and the reply to that request
  carries the content \<open>new\<close> along with the fingerprint: the content is downloaded
  before the fingerprints are compared.
\<close>

theorem same_fingerprint_still_downloads_counterexample:
  "current Ma = Some ''H1'' \<and>
   http_get E_same (requests W1) (url Ma) = Reply (Some ''H1'') (Some ''new'') \<and>
   fst (update_latest E_same Ma W1) = None \<and>
   requests (snd (snd (update_latest E_same Ma W1))) = Suc (requests W1)"
  by (simp add: eval_defs E_same_def E0_def Ma_def W1_def)

text \<open>
  Claim C7, as the code has it. \<open>update_latest\<close> sends its one request whenever
  the first low-memory check passes, whatever the fingerprints are; the reply
  carries fingerprint and content together. When the reply carries the
  fingerprint that \<open>current\<close> already holds, \<open>update_latest\<close> writes no file,
  leaves \<open>latest_file\<close> as it was, and does not read the content of the reply: any
  other content gives the same result. A pass in which every reply carries the
  current fingerprint of its file changes no file and no \<open>current\<close>, and returns
  \<open>False\<close> (or raises \<open>OTANoMemory\<close> when a low-memory check fails; with enough
  memory it returns \<open>False\<close>). \<open>update_latest\<close> changes the files only when the
  reply carries a fingerprint different from \<open>current\<close>.
\<close>

theorem same_fingerprint_stages_nothing:
  "(OTA_MINIMUM_MEMORY \<le> mem_free E (mem_queries w) \<longrightarrow>
      requests (snd (snd (update_latest E m w))) = Suc (requests w)) \<and>
   (http_get E (requests w) (url m) = Reply (Some s) cont \<and> current m = Some s \<longrightarrow>
      fs (snd (snd (update_latest E m w))) = fs w \<and>
      latest_file (fst (snd (update_latest E m w))) = latest_file m \<and>
      update_latest (E\<lparr>http_get := (\<lambda>n u. Reply (Some s) cont')\<rparr>) m w = update_latest E m w) \<and>
   ((\<forall>m\<in>set ms. \<forall>n. \<exists>s cont. http_get E n (url m) = Reply (Some s) cont \<and> current m = Some s) \<longrightarrow>
      fs (snd (snd (check_for_updates E ms w))) = fs w \<and>
      map current (fst (snd (check_for_updates E ms w))) = map current ms \<and>
      (fst (check_for_updates E ms w) = Inr False \<or>
       fst (check_for_updates E ms w) = Inl OTANoMemory) \<and>
      ((\<forall>n. OTA_MINIMUM_MEMORY \<le> mem_free E n) \<longrightarrow>
         fst (check_for_updates E ms w) = Inr False)) \<and>
   (fs (snd (snd (update_latest E m w))) \<noteq> fs w \<longrightarrow>
      (\<exists>s cont. http_get E (requests w) (url m) = Reply (Some s) cont \<and> current m \<noteq> Some s))"
proof (intro conjI impI)
  assume "OTA_MINIMUM_MEMORY \<le> mem_free E (mem_queries w)"
  then show "requests (snd (snd (update_latest E m w))) = Suc (requests w)"
    by (rule update_latest_sends_request)
next
  assume a: "http_get E (requests w) (url m) = Reply (Some s) cont \<and> current m = Some s"
  then have u: "http_get E (requests w) (url m) = Reply (Some s) cont" "current m = Some s"
    by simp_all
  show "fs (snd (snd (update_latest E m w))) = fs w"
    using update_latest_same_sha [OF u] by simp
  show "latest_file (fst (snd (update_latest E m w))) = latest_file m"
    using update_latest_same_sha [OF u] by simp
  show "update_latest (E\<lparr>http_get := (\<lambda>n u. Reply (Some s) cont')\<rparr>) m w = update_latest E m w"
    using u by (rule update_latest_ignores_content)
next
  assume a: "\<forall>m\<in>set ms. \<forall>n. \<exists>s cont.
      http_get E n (url m) = Reply (Some s) cont \<and> current m = Some s"
  note c = check_for_updates_same_sha [OF a, of w]
  show "fs (snd (snd (check_for_updates E ms w))) = fs w" using c by blast
  show "map current (fst (snd (check_for_updates E ms w))) = map current ms" using c by blast
  show "fst (check_for_updates E ms w) = Inr False \<or>
       fst (check_for_updates E ms w) = Inl OTANoMemory" using c by blast
  assume "\<forall>n. OTA_MINIMUM_MEMORY \<le> mem_free E n"
  then have "\<not> (\<exists>n. mem_free E n < OTA_MINIMUM_MEMORY)" by (simp add: not_less)
  then show "fst (check_for_updates E ms w) = Inr False" using c by blast
next
  assume "fs (snd (snd (update_latest E m w))) \<noteq> fs w"
  then show "\<exists>s cont. http_get E (requests w) (url m) = Reply (Some s) cont \<and> current m \<noteq> Some s"
    by (rule update_latest_changes_fs)
qed

theorem same_fingerprint_stages_nothing_witness:
  "requests (snd (snd (update_latest E_same Ma W1))) = Suc (requests W1) \<and>
   fs (snd (snd (update_latest E_same Ma W1))) = fs W1 \<and>
   fs (snd (snd (check_for_updates E_same [Ma, Mb] W1))) = fs W1 \<and>
   fst (check_for_updates E_same [Ma, Mb] W1) = Inr False \<and>
   (\<exists>s cont. http_get E0 (requests W0) (url Ma) = Reply (Some s) cont \<and> current Ma \<noteq> Some s)"
proof -
  note t = same_fingerprint_stages_nothing [where E = E_same and w = W1 and m = Ma
      and s = "''H1''" and cont = "Some ''new''" and ms = "[Ma, Mb]"]
  have h0: "OTA_MINIMUM_MEMORY \<le> mem_free E_same (mem_queries W1)"
    by (simp add: E_same_def E0_def OTA_MINIMUM_MEMORY_def)
  have h1: "http_get E_same (requests W1) (url Ma) = Reply (Some ''H1'') (Some ''new'')
      \<and> current Ma = Some ''H1''"
    by (simp add: E_same_def E0_def Ma_def)
  have h2: "\<forall>m\<in>set [Ma, Mb]. \<forall>n. \<exists>s cont.
      http_get E_same n (url m) = Reply (Some s) cont \<and> current m = Some s"
    by (simp add: E_same_def E0_def Ma_def Mb_def)
  have h3: "\<forall>n. OTA_MINIMUM_MEMORY \<le> mem_free E_same n"
    by (simp add: E_same_def E0_def OTA_MINIMUM_MEMORY_def)
  have "fs (snd (snd (update_latest E0 Ma W0))) ''__latest__a.py''
      \<noteq> fs W0 ''__latest__a.py''"
    by (simp add: eval_defs E0_def W0_def Ma_def D0_def)
  then have h4: "fs (snd (snd (update_latest E0 Ma W0))) \<noteq> fs W0"
    by metis
  note t' = same_fingerprint_stages_nothing [where E = E0 and w = W0 and m = Ma]
  from t h0 h1 h2 h3 t' h4 show ?thesis by blast
qed

subsection \<open>The constructors\<close>













subsection \<open>Invariants of the staged files\<close>

lemma calculate_github_sha_fingerprint:
  "calculate_github_sha E f name = (case f name of None \<Rightarrow> [] | Some c \<Rightarrow> fingerprint E c)"
  by (simp add: calculate_github_sha_def fingerprint_def read_chunks_all Let_def split: option.splits)

lemma prefixes_differ [simp]:
  "LATEST_FILE_PREFIX @ a \<noteq> ERROR_FILE_PREFIX @ b"
  "LATEST_FILE_PREFIX @ a \<noteq> BACKUP_FILE_PREFIX @ b"
  "LATEST_FILE_PREFIX @ a \<noteq> DB_FILE"
  "BACKUP_FILE_PREFIX @ a \<noteq> DB_FILE"
  "ERROR_FILE_PREFIX @ a \<noteq> DB_FILE"
  "BACKUP_FILE_PREFIX @ a \<noteq> LATEST_FILE_PREFIX @ b"
  "ERROR_FILE_PREFIX @ a \<noteq> LATEST_FILE_PREFIX @ b"
  "LATEST_FILE_PREFIX @ a \<noteq> a"
  "BACKUP_FILE_PREFIX @ a \<noteq> a"
  "DB_FILE \<noteq> LATEST_FILE_PREFIX @ a"
  "DB_FILE \<noteq> BACKUP_FILE_PREFIX @ a"
  "DB_FILE \<noteq> ERROR_FILE_PREFIX @ a"
  "a \<noteq> LATEST_FILE_PREFIX @ a"
  "a \<noteq> BACKUP_FILE_PREFIX @ a"
  "LATEST_FILE_PREFIX \<noteq> []"
  "BACKUP_FILE_PREFIX \<noteq> []"
  "LATEST_FILE_PREFIX \<noteq> BACKUP_FILE_PREFIX"
  "LATEST_FILE_PREFIX \<noteq> ERROR_FILE_PREFIX"
  "BACKUP_FILE_PREFIX \<noteq> LATEST_FILE_PREFIX"
  "ERROR_FILE_PREFIX \<noteq> LATEST_FILE_PREFIX"
  by (simp_all add: LATEST_FILE_PREFIX_def ERROR_FILE_PREFIX_def BACKUP_FILE_PREFIX_def DB_FILE_def)

lemma staged_inv_frame:
  assumes "staged_inv Q w m"
    and "fs w' (LATEST_FILE_PREFIX @ filename m) = fs w (LATEST_FILE_PREFIX @ filename m)"
  shows "staged_inv Q w' m"
  using assms by (auto simp add: staged_inv_def)

lemma update_latest_frame:
  assumes "update_latest E m w = (r, m', w')"
  shows "filename m' = filename m \<and> current m' = current m \<and> save_backups m' = save_backups m \<and>
         url m' = url m \<and>
         (\<forall>p. p \<noteq> LATEST_FILE_PREFIX @ filename m \<and> p \<noteq> ERROR_FILE_PREFIX @ filename m
              \<longrightarrow> fs w' p = fs w p)"
  using assms
  by (auto simp add: update_latest_def mem_check_def stage_def Let_def sleep_def rename_def
      split: if_splits response.splits error.splits option.splits prod.splits sum.splits bool.splits)

lemma update_latest_staged_matches:
  assumes "update_latest E m w = (r, m', w')"
    and "staged_inv (staged_matches E) w m"
    and "honest_remote E"
  shows "staged_inv (staged_matches E) w' m'"
proof (cases "\<exists>s cont. http_get E (requests w) (url m) = Reply (Some s) cont")
  case False
  with assms(1,2) show ?thesis
    by (auto simp add: update_latest_def mem_check_def Let_def sleep_def
      staged_inv_def staged_matches_def new_version_available_def
      split: if_splits response.splits error.splits option.splits prod.splits sum.splits bool.splits)
next
  case True
  then obtain s cont where g: "http_get E (requests w) (url m) = Reply (Some s) cont" by blast
  with assms(3) obtain b64 c where h: "cont = Some b64" "a2b_base64 E b64 = Some c"
      "utf8_valid E c" "s = fingerprint E (Text c)"
    unfolding honest_remote_def by blast
  with assms(1,2) g show ?thesis
    by (auto simp add: update_latest_def mem_check_def stage_def Let_def sleep_def rename_def
      staged_inv_def staged_matches_def new_version_available_def
      split: if_splits option.splits prod.splits sum.splits bool.splits)
qed


lemma set_current_to_latest_step:
  assumes "set_current_to_latest m w = (r, m', w')"
    and "staged_inv Q w m"
  shows "(\<forall>q. q \<noteq> filename m \<and> q \<noteq> BACKUP_FILE_PREFIX @ filename m
              \<and> q \<noteq> LATEST_FILE_PREFIX @ filename m \<longrightarrow> fs w' q = fs w q) \<and>
         (r \<noteq> None \<longrightarrow> m' = m \<and>
            fs w' (LATEST_FILE_PREFIX @ filename m) = fs w (LATEST_FILE_PREFIX @ filename m)) \<and>
         (r = None \<longrightarrow> m' = m\<lparr>current := latest m\<rparr> \<and>
            latest_file m = Some (LATEST_FILE_PREFIX @ filename m) \<and>
            fs w' (LATEST_FILE_PREFIX @ filename m) = None \<and>
            (\<exists>c. fs w (LATEST_FILE_PREFIX @ filename m) = Some c \<and>
                 fs w' (filename m) = Some c \<and> Q m c))"
  using assms
  by (auto simp add: set_current_to_latest_def rename_def staged_inv_def
      split: if_splits option.splits)

lemma set_current_to_latest_no_staged:
  assumes "latest_file m = None"
  shows "fst (set_current_to_latest m w) = Some TypeError \<and> fst (snd (set_current_to_latest m w)) = m"
  using assms
  by (auto simp add: set_current_to_latest_def rename_def split: if_splits option.splits)

lemma OTADatabase_delete_frame:
  assumes "OTADatabase_delete E name w = (r, w')"
  shows "\<forall>p. p \<noteq> DB_FILE \<longrightarrow> fs w' p = fs w p"
  using assms
  by (auto simp add: OTADatabase_delete_def OTADatabase_write_def
      split: sum.splits bool.splits option.splits)

lemma OTADatabase_update_frame:
  assumes "OTADatabase_update E item w = (r, w')"
  shows "\<forall>p. p \<noteq> DB_FILE \<longrightarrow> fs w' p = fs w p"
proof -
  obtain r1 w1 where d: "OTADatabase_delete E (fst item) w = (r1, w1)"
    by (cases "OTADatabase_delete E (fst item) w") auto
  from OTADatabase_delete_frame [OF d] assms d show ?thesis
    by (auto simp add: OTADatabase_update_def OTADatabase_write_def
        split: sum.splits option.splits)
qed

lemma OTADatabase_update_entry:
  assumes "OTADatabase_update E (k, e) w = (None, w')"
  shows "get_entry E w' k = Inr (Some e) \<and>
         (\<forall>k'. k' \<noteq> k \<longrightarrow> get_entry E w' k' = get_entry E w k')"
proof -
  from assms obtain d where r: "OTADatabase_read E w = Inr (Some d)"
    by (auto simp add: OTADatabase_update_def split: sum.splits option.splits prod.splits)
  from OTADatabase_update_present [OF r, of k e] assms
  have w': "w' = OTADatabase_write (AList.update k e d) w" by simp
  show ?thesis using r by (simp add: w' get_entry_def update_conv')
qed

lemma get_entry_frame:
  assumes "fs w' DB_FILE = fs w DB_FILE"
  shows "get_entry E w' k = get_entry E w k"
  using assms by (simp add: get_entry_def OTADatabase_read_def)


lemma notin_imageD: "f a \<notin> f ` S \<Longrightarrow> b \<in> S \<Longrightarrow> f b \<noteq> f a"
  by (metis imageI)

lemma well_named_Cons:
  assumes "well_named (m # ms)"
  shows "well_named ms" and "filename m \<noteq> DB_FILE"
    and "\<forall>m'\<in>set ms. filename m' \<noteq> filename m \<and>
           filename m \<noteq> LATEST_FILE_PREFIX @ filename m' \<and>
           filename m \<noteq> BACKUP_FILE_PREFIX @ filename m' \<and>
           filename m' \<noteq> LATEST_FILE_PREFIX @ filename m \<and>
           filename m' \<noteq> BACKUP_FILE_PREFIX @ filename m"
proof -
  from assms show "well_named ms" "filename m \<noteq> DB_FILE"
    by (simp_all add: well_named_def Let_def)
  from assms have d: "filename m \<notin> filename ` set ms"
    and c: "\<forall>m'\<in>set ms. filename m \<noteq> LATEST_FILE_PREFIX @ filename m' \<and>
           filename m \<noteq> BACKUP_FILE_PREFIX @ filename m' \<and>
           filename m' \<noteq> LATEST_FILE_PREFIX @ filename m \<and>
           filename m' \<noteq> BACKUP_FILE_PREFIX @ filename m"
    by (simp_all add: well_named_def Let_def)
  show "\<forall>m'\<in>set ms. filename m' \<noteq> filename m \<and>
           filename m \<noteq> LATEST_FILE_PREFIX @ filename m' \<and>
           filename m \<noteq> BACKUP_FILE_PREFIX @ filename m' \<and>
           filename m' \<noteq> LATEST_FILE_PREFIX @ filename m \<and>
           filename m' \<noteq> BACKUP_FILE_PREFIX @ filename m"
  proof
    fix m' assume a: "m' \<in> set ms"
    from notin_imageD [OF d a] c a
    show "filename m' \<noteq> filename m \<and>
           filename m \<noteq> LATEST_FILE_PREFIX @ filename m' \<and>
           filename m \<noteq> BACKUP_FILE_PREFIX @ filename m' \<and>
           filename m' \<noteq> LATEST_FILE_PREFIX @ filename m \<and>
           filename m' \<noteq> BACKUP_FILE_PREFIX @ filename m" by simp
  qed
qed

lemma well_named_names:
  assumes "map filename ms' = map filename ms"
  shows "well_named ms' = well_named ms"
  by (simp add: well_named_def assms)

lemma well_named_distinct: "well_named ms \<Longrightarrow> distinct (map filename ms)"
  by (simp add: well_named_def Let_def)

lemma fetch_loop_inv:
  assumes step: "\<And>m w r m' w'. update_latest E m w = (r, m', w') \<Longrightarrow> staged_inv Q w m
      \<Longrightarrow> staged_inv Q w' m'"
    and "fetch_loop E ms w = (r, ms', w')"
    and "distinct (map filename ms)"
    and "\<forall>m\<in>set ms. staged_inv Q w m"
  shows "map filename ms' = map filename ms \<and> map current ms' = map current ms \<and>
         (\<forall>m'\<in>set ms'. staged_inv Q w' m') \<and>
         (\<forall>q. (\<forall>m\<in>set ms. q \<noteq> LATEST_FILE_PREFIX @ filename m
                       \<and> q \<noteq> ERROR_FILE_PREFIX @ filename m) \<longrightarrow> fs w' q = fs w q)"
  using assms(2-)
proof (induction ms arbitrary: w r ms' w')
  case Nil
  then show ?case by simp
next
  case (Cons m ms)
  obtain r1 m1 w1 where u: "update_latest E m w = (r1, m1, w1)"
    by (cases "update_latest E m w") auto
  note f = update_latest_frame [OF u]
  have h1: "staged_inv Q w1 m1"
    using step [OF u] Cons.prems(3) by simp
  have t1: "\<forall>m'\<in>set ms. staged_inv Q w1 m'"
  proof
    fix m' assume a: "m' \<in> set ms"
    from Cons.prems(2) have "filename m \<notin> filename ` set ms" by simp
    from notin_imageD [OF this a] have "filename m' \<noteq> filename m" .
    then have "fs w1 (LATEST_FILE_PREFIX @ filename m') = fs w (LATEST_FILE_PREFIX @ filename m')"
      using f by simp
    moreover from Cons.prems(3) a have "staged_inv Q w m'" by simp
    ultimately show "staged_inv Q w1 m'"
      by (rule staged_inv_frame [rotated])
  qed
  show ?case
  proof (cases r1)
    case (Some e)
    with Cons.prems(1) u have "r = Some e" "ms' = m1 # ms" "w' = w1" by simp_all
    with f h1 t1 show ?thesis by simp
  next
    case None
    obtain r2 ms2 w2 where l: "fetch_loop E ms w1 = (r2, ms2, w2)"
      by (cases "fetch_loop E ms w1") auto
    from Cons.prems(1) u None l have eq: "r = r2" "ms' = m1 # ms2" "w' = w2" by simp_all
    from Cons.prems(2) have d: "distinct (map filename ms)" by simp
    note ih = Cons.IH [OF l d t1]
    from Cons.prems(2) have "filename m \<notin> filename ` set ms" by simp
    then have "\<forall>m'\<in>set ms. filename m \<noteq> filename m'"
      using notin_imageD by metis
    then have "\<forall>m'\<in>set ms. LATEST_FILE_PREFIX @ filename m1 \<noteq> LATEST_FILE_PREFIX @ filename m'"
      using f by simp
    then have "fs w2 (LATEST_FILE_PREFIX @ filename m1) = fs w1 (LATEST_FILE_PREFIX @ filename m1)"
      using ih by simp
    with h1 have "staged_inv Q w2 m1" by (rule staged_inv_frame)
    moreover have "\<forall>q. (\<forall>m'\<in>set (m # ms). q \<noteq> LATEST_FILE_PREFIX @ filename m'
          \<and> q \<noteq> ERROR_FILE_PREFIX @ filename m') \<longrightarrow> fs w2 q = fs w q"
      using ih f by simp
    ultimately show ?thesis using ih f eq by simp
  qed
qed


lemma promotion_rel_same: "list_all2 (promotion_rel Q w) ms ms"
  by (simp add: list_all2_same promotion_rel_def)

lemma staged_inv_absent:
  assumes "latest_file m = Some (LATEST_FILE_PREFIX @ filename m)"
    and "fs w (LATEST_FILE_PREFIX @ filename m) = None"
  shows "staged_inv Q w m"
  using assms by (simp add: staged_inv_def)

lemma apply_loop_inv:
  assumes "apply_loop E ms w flag = (r, ms', w', fl)"
    and "well_named ms"
    and "\<forall>m\<in>set ms. staged_inv Q w m"
  shows "list_all2 (promotion_rel Q w') ms ms' \<and>
         (\<forall>q. q \<noteq> DB_FILE \<and> (\<forall>m\<in>set ms. q \<noteq> filename m
                  \<and> q \<noteq> LATEST_FILE_PREFIX @ filename m
                  \<and> q \<noteq> BACKUP_FILE_PREFIX @ filename m) \<longrightarrow> fs w' q = fs w q) \<and>
         (\<forall>m'\<in>set ms'. staged_inv Q w' m') \<and>
         (r = None \<longrightarrow>
            list_all2 (\<lambda>m m'. new_version_available m \<longrightarrow>
                get_entry E w' (filename m) = Inr (Some (snd (to_json m')))) ms ms' \<and>
            (\<forall>k. k \<notin> filename ` set ms \<longrightarrow> get_entry E w' k = get_entry E w k) \<and>
            fl = (flag \<or> (\<exists>m\<in>set ms. new_version_available m)))"
  using assms
proof (induction ms arbitrary: w flag r ms' w' fl)
  case Nil
  then show ?case by simp
next
  case (Cons m ms)
  let ?n = "filename m"
  let ?p = "LATEST_FILE_PREFIX @ filename m"
  note wn = well_named_Cons [OF Cons.prems(2)]
  from Cons.prems(3) have hi: "staged_inv Q w m" and ti: "\<forall>m'\<in>set ms. staged_inv Q w m'"
    by simp_all
  have np: "\<forall>m'\<in>set ms. ?p \<noteq> filename m' \<and> ?p \<noteq> LATEST_FILE_PREFIX @ filename m'
      \<and> ?p \<noteq> BACKUP_FILE_PREFIX @ filename m'"
    using wn(3) by auto
  have nn: "\<forall>m'\<in>set ms. ?n \<noteq> filename m' \<and> ?n \<noteq> LATEST_FILE_PREFIX @ filename m'
      \<and> ?n \<noteq> BACKUP_FILE_PREFIX @ filename m'"
    using wn(3) by auto
  have pn: "\<forall>m'\<in>set ms. LATEST_FILE_PREFIX @ filename m' \<noteq> ?n
      \<and> LATEST_FILE_PREFIX @ filename m' \<noteq> ?p"
    using wn(3) by auto
  show ?case
  proof (cases "new_version_available m")
    case False
    obtain r2 ms2 w2 fl2 where t: "apply_loop E ms w flag = (r2, ms2, w2, fl2)"
      by (cases "apply_loop E ms w flag") auto
    from Cons.prems(1) False t have eq: "r = r2" "ms' = m # ms2" "w' = w2" "fl = fl2"
      by simp_all
    note ih = Cons.IH [OF t wn(1) ti]
    have "promotion_rel Q w2 m m" by (simp add: promotion_rel_def)
    moreover have "fs w2 ?p = fs w ?p" using ih np by simp
    with hi have "staged_inv Q w2 m" by (rule staged_inv_frame)
    ultimately show ?thesis using ih False by (simp add: eq)
  next
    case True
    obtain r1 m1 w1 where p: "set_current_to_latest m w = (r1, m1, w1)"
      by (cases "set_current_to_latest m w") auto
    note st = set_current_to_latest_step [OF p hi]
    from st have fr1: "\<forall>q. q \<noteq> ?n \<and> q \<noteq> BACKUP_FILE_PREFIX @ ?n
            \<and> q \<noteq> ?p \<longrightarrow> fs w1 q = fs w q" by simp
    have ti1: "\<forall>m'\<in>set ms. staged_inv Q w1 m'"
    proof
      fix m' assume a: "m' \<in> set ms"
      with pn fr1 have "fs w1 (LATEST_FILE_PREFIX @ filename m') = fs w (LATEST_FILE_PREFIX @ filename m')"
        by simp
      moreover from ti a have "staged_inv Q w m'" by simp
      ultimately show "staged_inv Q w1 m'" by (rule staged_inv_frame [rotated])
    qed
    show ?thesis
    proof (cases r1)
      case (Some e)
      with Cons.prems(1) True p have eq: "r = Some e" "ms' = m1 # ms" "w' = w1" by simp_all
      from st Some have m1: "m1 = m" and "fs w1 ?p = fs w ?p" by simp_all
      with hi have "staged_inv Q w1 m" by (simp add: staged_inv_frame)
      moreover have "promotion_rel Q w1 m m" by (simp add: promotion_rel_def)
      ultimately show ?thesis using fr1 ti1 m1 by (simp add: eq promotion_rel_same)
    next
      case None
      from st None obtain c where m1: "m1 = m\<lparr>current := latest m\<rparr>"
        and lf: "latest_file m = Some ?p"
        and c1: "fs w1 ?n = Some c" and qc: "Q m c" and a1: "fs w1 ?p = None"
        by auto
      obtain r2 w2 where d: "OTADatabase_update E (to_json m1) w1 = (r2, w2)"
        by (cases "OTADatabase_update E (to_json m1) w1") auto
      note df = OTADatabase_update_frame [OF d]
      from df wn(2) c1 have c2: "fs w2 ?n = Some c" by simp
      from df a1 have a2: "fs w2 ?p = None" by simp
      have fr2: "\<forall>q. q \<noteq> DB_FILE \<and> q \<noteq> ?n \<and> q \<noteq> BACKUP_FILE_PREFIX @ ?n
              \<and> q \<noteq> ?p \<longrightarrow> fs w2 q = fs w q"
        using fr1 df by simp
      have hd2: "promotion_rel Q w2 m m1"
        using True m1 lf c2 qc by (auto simp add: promotion_rel_def)
      have ti2: "\<forall>m'\<in>set ms. staged_inv Q w2 m'"
      proof
        fix m' assume a: "m' \<in> set ms"
        from df have "fs w2 (LATEST_FILE_PREFIX @ filename m') = fs w1 (LATEST_FILE_PREFIX @ filename m')"
          by simp
        moreover from ti1 a have "staged_inv Q w1 m'" by simp
        ultimately show "staged_inv Q w2 m'" by (rule staged_inv_frame [rotated])
      qed
      have lf1: "latest_file m1 = Some (LATEST_FILE_PREFIX @ filename m1)"
        using lf m1 by simp
      show ?thesis
      proof (cases r2)
        case (Some e)
        with Cons.prems(1) True p None d have eq: "r = Some e" "ms' = m1 # ms" "w' = w2"
          by simp_all
        have "staged_inv Q w2 m1" using lf1 a2 m1 by (simp add: staged_inv_absent)
        then show ?thesis using hd2 fr2 ti2 by (simp add: eq promotion_rel_same)
      next
        case r2: None
        obtain r3 ms3 w3 fl3 where t: "apply_loop E ms w2 True = (r3, ms3, w3, fl3)"
          by (cases "apply_loop E ms w2 True") auto
        from Cons.prems(1) True p None d r2 t
        have eq: "r = r3" "ms' = m1 # ms3" "w' = w3" "fl = fl3" by simp_all
        note ih = Cons.IH [OF t wn(1) ti2]
        from ih have ih1: "list_all2 (promotion_rel Q w3) ms ms3"
          and ih2: "\<forall>q. q \<noteq> DB_FILE \<and> (\<forall>m\<in>set ms. q \<noteq> filename m
                  \<and> q \<noteq> LATEST_FILE_PREFIX @ filename m
                  \<and> q \<noteq> BACKUP_FILE_PREFIX @ filename m) \<longrightarrow> fs w3 q = fs w2 q"
          and ih3: "\<forall>m'\<in>set ms3. staged_inv Q w3 m'"
          by simp_all
        from ih2 wn(2) nn have "fs w3 ?n = fs w2 ?n" by simp
        with c2 have c3: "fs w3 ?n = Some c" by simp
        from ih2 np have "fs w3 ?p = fs w2 ?p" by simp
        with a2 have a3: "fs w3 ?p = None" by simp
        have h3: "staged_inv Q w3 m1" using lf1 a3 m1 by (simp add: staged_inv_absent)
        have hd3: "promotion_rel Q w3 m m1"
          using True m1 lf c3 qc by (auto simp add: promotion_rel_def)
        have fr3: "\<forall>q. q \<noteq> DB_FILE \<and> (\<forall>m'\<in>set (m # ms). q \<noteq> filename m'
                  \<and> q \<noteq> LATEST_FILE_PREFIX @ filename m'
                  \<and> q \<noteq> BACKUP_FILE_PREFIX @ filename m') \<longrightarrow> fs w3 q = fs w q"
          using ih2 fr2 by simp
        have db: "r3 = None \<longrightarrow>
            list_all2 (\<lambda>m m'. new_version_available m \<longrightarrow>
                get_entry E w3 (filename m) = Inr (Some (snd (to_json m')))) (m # ms) (m1 # ms3) \<and>
            (\<forall>k. k \<notin> filename ` set (m # ms) \<longrightarrow> get_entry E w3 k = get_entry E w k) \<and>
            fl3 = (flag \<or> (\<exists>m\<in>set (m # ms). new_version_available m))"
        proof
          assume r3: "r3 = None"
          with ih have b1: "list_all2 (\<lambda>m m'. new_version_available m \<longrightarrow>
                get_entry E w3 (filename m) = Inr (Some (snd (to_json m')))) ms ms3"
            and b2: "\<forall>k. k \<notin> filename ` set ms \<longrightarrow> get_entry E w3 k = get_entry E w2 k"
            and b3: "fl3 = True"
            by simp_all
          have tj: "to_json m1 = (?n, snd (to_json m1))"
            by (simp add: to_json_def m1)
          from d r2 tj have "OTADatabase_update E (?n, snd (to_json m1)) w1 = (None, w2)"
            by simp
          note ue = OTADatabase_update_entry [OF this]
          have "?n \<notin> filename ` set ms" using nn by auto
          with b2 ue have e3: "get_entry E w3 ?n = Inr (Some (snd (to_json m1)))" by simp
          have "fs w1 DB_FILE = fs w DB_FILE" using fr1 wn(2) [symmetric] by simp
          then have g1: "\<And>k. get_entry E w1 k = get_entry E w k" by (rule get_entry_frame)
          have "\<forall>k. k \<notin> filename ` set (m # ms) \<longrightarrow> get_entry E w3 k = get_entry E w k"
            using b2 ue g1 by simp
          with b1 b3 e3 True show "list_all2 (\<lambda>m m'. new_version_available m \<longrightarrow>
                get_entry E w3 (filename m) = Inr (Some (snd (to_json m')))) (m # ms) (m1 # ms3) \<and>
            (\<forall>k. k \<notin> filename ` set (m # ms) \<longrightarrow> get_entry E w3 k = get_entry E w k) \<and>
            fl3 = (flag \<or> (\<exists>m\<in>set (m # ms). new_version_available m))"
            by simp
        qed
        show ?thesis using hd3 ih1 fr3 h3 ih3 db unfolding eq by simp
      qed
    qed
  qed
qed

text \<open>
  A pass: \<open>fetch_updates\<close> is the loop with \<open>OTANewFileWillNotValidate\<close> caught,
  and \<open>_check_for_updates\<close> keeps the invariant of the staged files.
\<close>

lemma fetch_updates_fetch_loop:
  assumes "fetch_loop E ms w = (r, ms', w')"
  shows "fetch_updates E ms w = (if r = Some OTANewFileWillNotValidate then None else r, ms', w')"
proof (cases r)
  case None
  with assms show ?thesis by (simp add: fetch_updates_def)
next
  case (Some e)
  with assms show ?thesis by (cases e) (simp_all add: fetch_updates_def)
qed

lemma check_for_updates_inv:
  assumes step: "\<And>m w r m' w'. update_latest E m w = (r, m', w') \<Longrightarrow> staged_inv Q w m
      \<Longrightarrow> staged_inv Q w' m'"
    and c: "check_for_updates E ms w = (res, ms', w')"
    and wn: "well_named ms"
    and inv: "\<forall>m\<in>set ms. staged_inv Q w m"
  shows "\<exists>ms1. map filename ms1 = map filename ms \<and> map current ms1 = map current ms \<and>
           list_all2 (promotion_rel Q w') ms1 ms' \<and>
           (\<forall>m'\<in>set ms'. staged_inv Q w' m') \<and>
           (\<forall>b. res = Inr b \<longrightarrow>
              list_all2 (\<lambda>m m'. new_version_available m \<longrightarrow>
                get_entry E w' (filename m) = Inr (Some (snd (to_json m')))) ms1 ms')"
proof -
  obtain r1 ms1 w1 where l: "fetch_loop E ms w = (r1, ms1, w1)"
    by (cases "fetch_loop E ms w") auto
  note fi = fetch_loop_inv [where Q = Q, OF step l well_named_distinct [OF wn] inv]
  from fi have n1: "map filename ms1 = map filename ms" and c1: "map current ms1 = map current ms"
    and i1: "\<forall>m'\<in>set ms1. staged_inv Q w1 m'"
    by simp_all
  from well_named_names [OF n1] wn have wn1: "well_named ms1" by simp
  note fu = fetch_updates_fetch_loop [OF l]
  show ?thesis
  proof (cases "r1 = None \<or> r1 = Some OTANewFileWillNotValidate")
    case False
    then obtain e where e: "r1 = Some e" "e \<noteq> OTANewFileWillNotValidate" by (cases r1) auto
    with fu c have eq: "res = Inl e" "ms' = ms1" "w' = w1"
      by (simp_all add: check_for_updates_def)
    have "map filename ms1 = map filename ms \<and> map current ms1 = map current ms \<and>
           list_all2 (promotion_rel Q w') ms1 ms' \<and>
           (\<forall>m'\<in>set ms'. staged_inv Q w' m') \<and>
           (\<forall>b. res = Inr b \<longrightarrow>
              list_all2 (\<lambda>m m'. new_version_available m \<longrightarrow>
                get_entry E w' (filename m) = Inr (Some (snd (to_json m')))) ms1 ms')"
      using n1 c1 i1 by (simp add: eq promotion_rel_same)
    then show ?thesis ..
  next
    case True
    with fu have f: "fetch_updates E ms w = (None, ms1, w1)" by auto
    obtain r2 ms2 w2 fl where a: "apply_loop E ms1 w1 False = (r2, ms2, w2, fl)"
      by (cases "apply_loop E ms1 w1 False") auto
    note ai = apply_loop_inv [OF a wn1 i1]
    from c f a have eq: "ms' = ms2" "w' = w2" "res = (case r2 of Some e \<Rightarrow> Inl e | None \<Rightarrow> Inr fl)"
      by (simp_all add: check_for_updates_def split: option.splits)
    have rn: "\<forall>b. res = Inr b \<longrightarrow> r2 = None" using eq(3) by (cases r2) auto
    from ai have a1: "list_all2 (promotion_rel Q w2) ms1 ms2"
      and a3: "\<forall>m'\<in>set ms2. staged_inv Q w2 m'"
      and a4: "r2 = None \<longrightarrow> list_all2 (\<lambda>m m'. new_version_available m \<longrightarrow>
                get_entry E w2 (filename m) = Inr (Some (snd (to_json m')))) ms1 ms2"
      by simp_all
    have "map filename ms1 = map filename ms \<and> map current ms1 = map current ms \<and>
           list_all2 (promotion_rel Q w') ms1 ms' \<and>
           (\<forall>m'\<in>set ms'. staged_inv Q w' m') \<and>
           (\<forall>b. res = Inr b \<longrightarrow>
              list_all2 (\<lambda>m m'. new_version_available m \<longrightarrow>
                get_entry E w' (filename m) = Inr (Some (snd (to_json m')))) ms1 ms')"
      using n1 c1 a1 a3 a4 rn unfolding eq(1,2) by simp
    then show ?thesis ..
  qed
qed

lemma promotion_rel_nth:
  assumes "list_all2 (promotion_rel Q w') ms1 ms'"
    and "map filename ms1 = map filename ms" and "map current ms1 = map current ms"
    and "i < length ms" and "current (ms' ! i) \<noteq> current (ms ! i)"
  shows "i < length ms1 \<and> filename (ms1 ! i) = filename (ms ! i) \<and>
         new_version_available (ms1 ! i) \<and> ms' ! i = (ms1 ! i)\<lparr>current := latest (ms1 ! i)\<rparr> \<and>
         latest_file (ms1 ! i) = Some (LATEST_FILE_PREFIX @ filename (ms ! i)) \<and>
         (\<exists>c. fs w' (filename (ms ! i)) = Some c \<and> Q (ms1 ! i) c)"
proof -
  from assms(2) have len: "length ms1 = length ms" by (rule map_eq_imp_length_eq)
  with assms(4) have i1: "i < length ms1" by simp
  from assms(2) have "map filename ms1 ! i = map filename ms ! i" by simp
  with i1 assms(4) have fn: "filename (ms1 ! i) = filename (ms ! i)" by simp
  from assms(3) have "map current ms1 ! i = map current ms ! i" by simp
  with i1 assms(4) have cu: "current (ms1 ! i) = current (ms ! i)" by simp
  from assms(1) i1 have "promotion_rel Q w' (ms1 ! i) (ms' ! i)"
    by (simp add: list_all2_conv_all_nth)
  with assms(5) cu fn i1 show ?thesis by (auto simp add: promotion_rel_def)
qed

text \<open>
  The round trip on the paths that no exception has interrupted. When the remote
  source is honest, the tracked names are well formed and every staged file that
  exists has the fingerprint \<open>latest\<close> of its pending update, a pass that returns
  normally leaves every promoted file with \<open>current = latest\<close>, the same values in
  its entry of the store, and a live file whose recomputed fingerprint is
  \<open>current\<close>; and the invariant holds again for the next pass.
\<close>

lemma promoted_files_round_trip:
  assumes "honest_remote E"
    and "well_named ms"
    and "\<forall>m\<in>set ms. staged_inv (staged_matches E) w m"
    and "check_for_updates E ms w = (Inr b, ms', w')"
  shows "(\<forall>i<length ms. current (ms' ! i) \<noteq> current (ms ! i) \<longrightarrow>
            current (ms' ! i) = latest (ms' ! i) \<and>
            get_entry E w' (filename (ms ! i))
              = Inr (Some \<lparr>e_latest = latest (ms' ! i), e_current = current (ms' ! i)\<rparr>) \<and>
            current (ms' ! i) = Some (calculate_github_sha E (fs w') (filename (ms ! i)))) \<and>
         (\<forall>m'\<in>set ms'. staged_inv (staged_matches E) w' m')"
proof -
  have step: "\<And>m w r m' w'. update_latest E m w = (r, m', w')
      \<Longrightarrow> staged_inv (staged_matches E) w m \<Longrightarrow> staged_inv (staged_matches E) w' m'"
    by (rule update_latest_staged_matches [OF _ _ assms(1)])
  have "\<exists>ms1. map filename ms1 = map filename ms \<and> map current ms1 = map current ms \<and>
           list_all2 (promotion_rel (staged_matches E) w') ms1 ms' \<and>
           (\<forall>m'\<in>set ms'. staged_inv (staged_matches E) w' m') \<and>
           (\<forall>b'. (Inr b :: error + bool) = Inr b' \<longrightarrow>
              list_all2 (\<lambda>m m'. new_version_available m \<longrightarrow>
                get_entry E w' (filename m) = Inr (Some (snd (to_json m')))) ms1 ms')"
    by (rule check_for_updates_inv [where Q = "staged_matches E", OF _ assms(4,2,3)])
       (rule step)
  then obtain ms1 where n1: "map filename ms1 = map filename ms"
    and c1: "map current ms1 = map current ms"
    and pr: "list_all2 (promotion_rel (staged_matches E) w') ms1 ms'"
    and i': "\<forall>m'\<in>set ms'. staged_inv (staged_matches E) w' m'"
    and db: "list_all2 (\<lambda>m m'. new_version_available m \<longrightarrow>
                get_entry E w' (filename m) = Inr (Some (snd (to_json m')))) ms1 ms'"
    by blast
  have "\<forall>i<length ms. current (ms' ! i) \<noteq> current (ms ! i) \<longrightarrow>
            current (ms' ! i) = latest (ms' ! i) \<and>
            get_entry E w' (filename (ms ! i))
              = Inr (Some \<lparr>e_latest = latest (ms' ! i), e_current = current (ms' ! i)\<rparr>) \<and>
            current (ms' ! i) = Some (calculate_github_sha E (fs w') (filename (ms ! i)))"
  proof (intro allI impI)
    fix i assume i: "i < length ms" and ch: "current (ms' ! i) \<noteq> current (ms ! i)"
    from promotion_rel_nth [OF pr n1 c1 i ch] obtain c where
      i1: "i < length ms1" and fn: "filename (ms1 ! i) = filename (ms ! i)"
      and nv: "new_version_available (ms1 ! i)"
      and m': "ms' ! i = (ms1 ! i)\<lparr>current := latest (ms1 ! i)\<rparr>"
      and fc: "fs w' (filename (ms ! i)) = Some c" and q: "staged_matches E (ms1 ! i) c"
      by blast
    from q nv have l: "latest (ms1 ! i) = Some (fingerprint E c)"
      by (simp add: staged_matches_def)
    from db i1 nv have "get_entry E w' (filename (ms1 ! i)) = Inr (Some (snd (to_json (ms' ! i))))"
      by (simp add: list_all2_conv_all_nth)
    with fn have g: "get_entry E w' (filename (ms ! i))
        = Inr (Some \<lparr>e_latest = latest (ms' ! i), e_current = current (ms' ! i)\<rparr>)"
      by (simp add: to_json_def)
    have "calculate_github_sha E (fs w') (filename (ms ! i)) = fingerprint E c"
      using fc by (simp add: calculate_github_sha_fingerprint)
    with l m' g show "current (ms' ! i) = latest (ms' ! i) \<and>
            get_entry E w' (filename (ms ! i))
              = Inr (Some \<lparr>e_latest = latest (ms' ! i), e_current = current (ms' ! i)\<rparr>) \<and>
            current (ms' ! i) = Some (calculate_github_sha E (fs w') (filename (ms ! i)))"
      by simp
  qed
  with i' show ?thesis by simp
qed

text \<open>
  The hypotheses hold, and both files are promoted, on the device \<open>W1\<close> with the
  honest source \<open>E_h\<close>.
\<close>

lemma promoted_files_round_trip_instance:
  "honest_remote E_h \<and>
   map current (fst (snd (check_for_updates E_h [Ma, Mb] W1))) = [Some ''7765'', Some ''7765''] \<and>
   calculate_github_sha E_h (fs (snd (snd (check_for_updates E_h [Ma, Mb] W1)))) ''a.py'' = ''7765'' \<and>
   calculate_github_sha E_h (fs (snd (snd (check_for_updates E_h [Ma, Mb] W1)))) ''b.py'' = ''7765''"
proof -
  let ?r = "check_for_updates E_h [Ma, Mb] W1"
  have fp: "fingerprint E_h (Text ''new'') = ''7765''"
    by (simp add: fingerprint_def E_h_def E0_def bytes_of_def blob_header_def decimal.simps
        digit_def hexdigest_def hex_byte_def hex_digit_def)
  have h: "honest_remote E_h"
    unfolding honest_remote_def
  proof (intro allI impI)
    fix n u s cont assume "http_get E_h n u = Reply (Some s) cont"
    then have "s = ''7765''" "cont = Some ''new''" by (simp_all add: E_h_def E0_def)
    moreover have "a2b_base64 E_h ''new'' = Some ''new''" "utf8_valid E_h ''new''"
      by (simp_all add: E_h_def E0_def)
    ultimately show "\<exists>b64 c. cont = Some b64 \<and> a2b_base64 E_h b64 = Some c \<and> utf8_valid E_h c
                 \<and> s = fingerprint E_h (Text c)"
      using fp by simp
  qed
  have wn: "well_named [Ma, Mb]"
    by (simp add: well_named_def Ma_def Mb_def DB_FILE_def
        LATEST_FILE_PREFIX_def BACKUP_FILE_PREFIX_def)
  have inv: "\<forall>m\<in>set [Ma, Mb]. staged_inv (staged_matches E_h) W1 m"
    by (simp add: staged_inv_def Ma_def Mb_def)
  have r: "fst ?r = Inr True"
    by (simp add: eval_defs E_h_def E0_def W1_def Ma_def Mb_def D1_def)
  then have c: "?r = (Inr True, fst (snd ?r), snd (snd ?r))"
    by (metis prod.collapse)
  have cur: "map current (fst (snd ?r)) = [Some ''7765'', Some ''7765'']"
    by (simp add: eval_defs E_h_def E0_def W1_def Ma_def Mb_def D1_def)
  have c0: "current (fst (snd ?r) ! 0) = Some ''7765''"
    and c1: "current (fst (snd ?r) ! 1) = Some ''7765''"
    by (simp_all add: eval_defs E_h_def E0_def W1_def Ma_def Mb_def D1_def)
  note t = promoted_files_round_trip [OF h wn inv c, THEN conjunct1, rule_format]
  have n0: "(0::nat) < length [Ma, Mb]" and n1: "(1::nat) < length [Ma, Mb]" by simp_all
  have d0: "current (fst (snd ?r) ! 0) \<noteq> current ([Ma, Mb] ! 0)"
    and d1: "current (fst (snd ?r) ! 1) \<noteq> current ([Ma, Mb] ! 1)"
    unfolding c0 c1 by (simp_all add: Ma_def Mb_def)
  from t [OF n0 d0] t [OF n1 d1]
  have "current (fst (snd ?r) ! 0) = Some (calculate_github_sha E_h (fs (snd (snd ?r))) (filename ([Ma, Mb] ! 0)))"
    "current (fst (snd ?r) ! 1) = Some (calculate_github_sha E_h (fs (snd (snd ?r))) (filename ([Ma, Mb] ! 1)))"
    by blast+
  with c0 c1
  have "calculate_github_sha E_h (fs (snd (snd ?r))) ''a.py'' = ''7765''"
    "calculate_github_sha E_h (fs (snd (snd ?r))) ''b.py'' = ''7765''"
    by (simp_all add: Ma_def Mb_def)
  with h cur show ?thesis by simp
qed

subsection \<open>A staged file left behind by an exception\<close>

lemmas trace_defs = bin_first_def bin_second_def mp_first_def mp_second_def
  E_bin_def E_mp_def E0_def U0_def W0_def Ma_def D0_def

text \<open>
  Claim C4, on the code. \<open>update_latest\<close> assigns \<open>latest\<close> and \<open>latest_file\<close> and
  creates \<open>__latest__<name>\<close> before the content is decoded and validated, and only
  the \<open>False\<close> result of \<open>valid_code\<close> clears them. An exception in between leaves
  a staged reference to a file that was never validated, and the next pass whose
  reply has no \<open>sha\<close> key promotes it. (Promotion with no staged reference
  does fail with \<open>TypeError\<close>: lemma \<open>set_current_to_latest_no_staged\<close>.)

  With \<open>E_bin\<close>: the first call raises \<open>UnicodeError\<close> while decoding and leaves an
  empty \<open>__latest__a.py\<close>, referenced by \<open>latest_file\<close>; the second call promotes
  it, so that the live \<open>a.py\<close> is empty, and resets the device.
  With \<open>E_mp\<close>: the first call raises \<open>NameError\<close> out of \<open>valid_code\<close> and leaves
  \<open>__latest__a.py\<close> with the text \<open>bad\<close>, which does not compile; the second call
  promotes it over \<open>a.py\<close> and resets the device.
\<close>

theorem unvalidated_staged_file_is_promoted:
  "fst bin_first = Inl UnicodeError \<and>
   map latest_file (files_obj (fst (snd bin_first))) = [Some ''__latest__a.py''] \<and>
   fs (snd (snd bin_first)) ''__latest__a.py'' = Some (Text []) \<and>
   fs (snd (snd bin_first)) ''a.py'' = fs W0 ''a.py'' \<and>
   fst bin_second = Inr None \<and>
   reset_called (snd (snd bin_second)) \<and>
   map current (files_obj (fst (snd bin_second))) = [Some ''6e69''] \<and>
   fs (snd (snd bin_second)) ''a.py'' = Some (Text []) \<and>
   fst mp_first = Inl NameError \<and>
   map latest_file (files_obj (fst (snd mp_first))) = [Some ''__latest__a.py''] \<and>
   fs (snd (snd mp_first)) ''__latest__a.py'' = Some (Text ''bad'') \<and>
   compile E_mp ''bad'' = Some SyntaxError \<and>
   fst mp_second = Inr None \<and>
   reset_called (snd (snd mp_second)) \<and>
   map current (files_obj (fst (snd mp_second))) = [Some ''H2''] \<and>
   fs (snd (snd mp_second)) ''a.py'' = Some (Text ''bad'')"
  by (simp add: trace_defs eval_defs)

text \<open>
  Claim C5, on the code. In \<open>E_bin\<close> the remote source announces the fingerprint of
  the content that it sends. The first call raises \<open>UnicodeError\<close>; the second call
  is a pass that promotes \<open>a.py\<close> and returns normally. After it the tracked file
  and the entry of \<open>a.py\<close> in \<open>versions.json\<close> have \<open>current = latest = 6e69\<close>,
  the announced fingerprint, while the live \<open>a.py\<close> is the empty file left by the
  first call and \<open>calculate_github_sha\<close> of it is \<open>0030\<close>: the round trip fails.
  (On the paths that no exception has interrupted it holds: lemma
  \<open>promoted_files_round_trip\<close>.)
\<close>

theorem promoted_empty_file_breaks_round_trip:
  "http_get E_bin 0 (url Ma) = Reply (Some (fingerprint E_bin (Text ''bin''))) (Some ''bin'') \<and>
   fst bin_first = Inl UnicodeError \<and>
   fst bin_second = Inr None \<and>
   map current (files_obj (fst (snd bin_second))) = [Some ''6e69''] \<and>
   map latest (files_obj (fst (snd bin_second))) = [Some ''6e69''] \<and>
   get_entry E_bin (snd (snd bin_second)) ''a.py''
     = Inr (Some \<lparr>e_latest = Some ''6e69'', e_current = Some ''6e69''\<rparr>) \<and>
   calculate_github_sha E_bin (fs (snd (snd bin_second))) ''a.py'' = ''0030''"
  by (simp add: trace_defs eval_defs get_entry_def fingerprint_def calculate_github_sha_def
      read_chunks_all blob_header_def decimal.simps digit_def hexdigest_def hex_byte_def
      hex_digit_def)

end
